theory Spec2Isabelle
  imports Main "HOL-Library.Char_ord" "HOL-Library.List_Lexorder"
begin

section \<open>projects.py: reconciling expected and observed git remotes\<close>

text \<open>
  The development embeds \<^verbatim>\<open>src/projects.py\<close>. Every call of the git client, the
  directory listing, the regular-expression engine and the file system is a field of an
  environment record; what the program does with the answers is modelled as written.
  The run produces an ordered stream of events (log records and git invocations), the
  final observed topology, the exported document (if any) and the way the process ends.
\<close>

subsection \<open>Python dictionaries\<close>

text \<open>
  A Python \<^verbatim>\<open>dict\<close> keeps insertion order, and \<^verbatim>\<open>==\<close> on dictionaries ignores it.
  It is an association list here: lookup finds the first binding, a store to an existing
  key keeps the key's position, a store to a new key appends.
\<close>

type_synonym ('k, 'v) dict = "('k \<times> 'v) list"

definition dict_get :: "('k, 'v) dict \<Rightarrow> 'k \<Rightarrow> 'v option" where
  "dict_get d k = map_of d k"

definition dict_in :: "'k \<Rightarrow> ('k, 'v) dict \<Rightarrow> bool" where
  "dict_in k d = (k \<in> set (map fst d))"

definition dict_keys :: "('k, 'v) dict \<Rightarrow> 'k list" where
  "dict_keys d = map fst d"

definition dict_values :: "('k, 'v) dict \<Rightarrow> 'v list" where
  "dict_values d = map snd d"

fun dict_set :: "'k \<Rightarrow> 'v \<Rightarrow> ('k, 'v) dict \<Rightarrow> ('k, 'v) dict" where
  "dict_set k v [] = [(k, v)]"
| "dict_set k v (kv # d) = (if fst kv = k then (k, v) # d else kv # dict_set k v d)"

text \<open>\<^verbatim>\<open>a == b\<close> on dictionaries: the same keys, and equal values under every key.\<close>

definition dict_eq :: "('v \<Rightarrow> 'v \<Rightarrow> bool) \<Rightarrow> ('k, 'v) dict \<Rightarrow> ('k, 'v) dict \<Rightarrow> bool" where
  "dict_eq veq a b =
     (set (dict_keys a) = set (dict_keys b) \<and>
      list_all (\<lambda>k. case (dict_get a k, dict_get b k) of
                        (Some x, Some y) \<Rightarrow> veq x y
                      | _ \<Rightarrow> False) (dict_keys a))"

text \<open>\<^verbatim>\<open>sorted(set(a).union(b))\<close>: the keys of both dictionaries, each once, ascending.\<close>

definition sorted_union :: "('k::linorder, 'v) dict \<Rightarrow> ('k, 'w) dict \<Rightarrow> 'k list" where
  "sorted_union a b = sort (remdups (dict_keys a @ dict_keys b))"

subsection \<open>Topologies\<close>

text \<open>
  \<^verbatim>\<open>_REMOTE_MODE_URL_TYPE = Dict[str, Dict[str, str]]\<close>: remote name to mode to URL.
  The value stored for a project is that dictionary or the \<^verbatim>\<open>CalledProcessError\<close>
  that \<^verbatim>\<open>git remote -v\<close> raised (with its standard error text).
\<close>

type_synonym mode_url = "(string, string) dict"
type_synonym remote_mode_url = "(string, mode_url) dict"

datatype query = Ok remote_mode_url | CalledProcessError string

type_synonym topology = "(string, query) dict"

definition mode_url_eq :: "mode_url \<Rightarrow> mode_url \<Rightarrow> bool" where
  "mode_url_eq = dict_eq (=)"

definition remote_mode_url_eq :: "remote_mode_url \<Rightarrow> remote_mode_url \<Rightarrow> bool" where
  "remote_mode_url_eq = dict_eq mode_url_eq"

subsection \<open>Events, arguments and the environment\<close>

datatype level = DEBUG | INFO | WARNING | ERROR

text \<open>A git invocation; the project name stands for \<^verbatim>\<open>-C path\<close> (or the clone's target path).\<close>

datatype git =
    GitRemoteV string
  | GitClone string string string
  | GitRemoteAdd string string string
  | GitRemoteSetUrl string bool string string
  | GitFetch string
  | GitShowRef string
  | GitStashList string
  | GitLsFiles string

text \<open>
  The log messages of \<^verbatim>\<open>main\<close>, with the values they are formatted with
  (\<open>QueryStderr\<close> carries the standard error of the failed query, which is logged stripped
  of surrounding white space).
\<close>

datatype message =
    Ignoring
  | ProjectPath
  | QueryStderr string
  | UnexpectedProject
  | ProjectSyncNeeded
  | SkippingClone
  | Cloning
  | CloneFailed string string
  | CloneComplete string string
  | UnableToClone
  | CloneExists
  | UnexpectedRemote
  | RemoteSyncNeeded
  | SkippingSetUrls
  | Adding
  | UnableToAddRemote
  | RemoteExists
  | UnexpectedMode
  | ModeSyncNeeded
  | Changing "string option" string
  | FetchingAll
  | FetchedUpdates string
  | FetchFailed string
  | CheckingBranches
  | LocalBranches string
  | CheckingStash
  | StashedChanges string
  | CheckingUntracked
  | UntrackedFiles string
  | LoadingSpec string
  | WritingSpec string
  | OSErrorMessage

text \<open>
  A log record carries its level, its prefix (\<^verbatim>\<open>[project]\<close>, \<^verbatim>\<open>[project] [remote]\<close> or
  \<^verbatim>\<open>[project] [remote] [mode]\<close>, as the list of the bracketed names) and its message.
\<close>

datatype event = Log level "string list" message | Run git

text \<open>How control leaves a loop body early: an exception nobody catches, or an exit.\<close>

datatype abort =
    SystemExit nat
  | Uncaught git
  | AssertionError nat

text \<open>
  \<^verbatim>\<open>re.search(args.pattern, project)\<close>: the pattern either does not compile
  (\<^verbatim>\<open>re.error\<close>) or decides for every name whether it matches somewhere.
\<close>

datatype pattern = InvalidRegex | Regex "string \<Rightarrow> bool"

record args =
  clone :: bool
  fetch :: bool
  set_urls :: bool
  sync :: bool
  spec :: "string option"
  spec_create :: "string option"
  spec_create_overwrite :: bool
  pattern :: pattern

text \<open>\<^verbatim>\<open>if args.sync:\<close> grants the three capabilities.\<close>

definition apply_sync :: "args \<Rightarrow> args" where
  "apply_sync a = (if sync a then a\<lparr>clone := True, fetch := True, set_urls := True\<rparr> else a)"

datatype spec_error = SpecOSError | JSONDecodeError

text \<open>
  What \<^verbatim>\<open>subprocess.run\<close> returns. \<^verbatim>\<open>check=True\<close> and \<^verbatim>\<open>check_output\<close> raise
  \<^verbatim>\<open>CalledProcessError\<close> when the return code is not zero.
\<close>

record completed =
  returncode :: int
  stdout :: string
  stderr :: string

text \<open>
  The environment answers every external call. Each git command is run at most once
  with the same arguments during a run, so a function of the command is as general as a
  stream of answers. The git executable itself is assumed to start.
  \<^item> \<open>listdir\<close>: the names in the projects directory, or \<open>None\<close> for \<^verbatim>\<open>OSError\<close>;
  \<^item> \<open>run\<close>: the completed process of a git command;
  \<^item> \<open>load_spec\<close>: the decoded specification document at a path, or why it could not be
    loaded; a document has the shape \<^verbatim>\<open>--spec-create\<close> writes, project to remote to mode to
    URL;
  \<^item> \<open>file_exists\<close>, \<open>open_oserror\<close>: whether the export path exists, and whether
    opening it for writing fails for another reason.
\<close>

record env =
  listdir :: "string list option"
  run :: "git \<Rightarrow> completed"
  load_spec :: "string \<Rightarrow> spec_error + (string, remote_mode_url) dict"
  file_exists :: "string \<Rightarrow> bool"
  open_oserror :: "string \<Rightarrow> bool"

subsection \<open>Loops\<close>

text \<open>
  A \<^verbatim>\<open>for\<close> loop over a list fixed at loop entry, threading the dictionary the body
  updates. A body that ends (also by \<^verbatim>\<open>continue\<close>) returns \<open>None\<close>; a body that raises
  returns the exception, and the loop stops there.
\<close>

type_synonym 's result = "event list \<times> 's \<times> abort option"

definition emit :: "event list \<Rightarrow> 's result \<Rightarrow> 's result" where
  "emit evs r = (case r of (evs', s, x) \<Rightarrow> (evs @ evs', s, x))"

text \<open>
  The loop ran on a dictionary that is itself a value of an outer dictionary: \<open>map_state\<close>
  reads the outer dictionary after the in-place updates.
\<close>

definition map_state :: "('s \<Rightarrow> 't) \<Rightarrow> 's result \<Rightarrow> 't result" where
  "map_state f r = (case r of (evs, s, x) \<Rightarrow> (evs, f s, x))"

definition and_then :: "'s result \<Rightarrow> ('s \<Rightarrow> 's result) \<Rightarrow> 's result" where
  "and_then r f =
     (case r of
        (evs, s, Some x) \<Rightarrow> (evs, s, Some x)
      | (evs, s, None) \<Rightarrow> emit evs (f s))"

fun for_each :: "('k \<Rightarrow> 's \<Rightarrow> 's result) \<Rightarrow> 'k list \<Rightarrow> 's \<Rightarrow> 's result" where
  "for_each body [] s = ([], s, None)"
| "for_each body (k # ks) s = and_then (body k s) (for_each body ks)"

subsection \<open>Querying one project: \<^verbatim>\<open>_remote_mode_url\<close>\<close>

text \<open>\<^verbatim>\<open>s.split(c)\<close>, \<^verbatim>\<open>s.rpartition(c)\<close> (without the separator) and \<^verbatim>\<open>s.strip(cs)\<close>.\<close>

fun split_on :: "char \<Rightarrow> string \<Rightarrow> string list" where
  "split_on c [] = [[]]"
| "split_on c (x # xs) =
     (if x = c then [] # split_on c xs
      else (case split_on c xs of [] \<Rightarrow> [[x]] | w # ws \<Rightarrow> (x # w) # ws))"

definition rpartition :: "char \<Rightarrow> string \<Rightarrow> string \<times> string" where
  "rpartition c s =
     (if c \<in> set s
      then (rev (tl (dropWhile (\<lambda>x. x \<noteq> c) (rev s))), rev (takeWhile (\<lambda>x. x \<noteq> c) (rev s)))
      else ([], s))"

definition strip :: "string \<Rightarrow> string \<Rightarrow> string" where
  "strip cs s = rev (dropWhile (\<lambda>x. x \<in> set cs) (rev (dropWhile (\<lambda>x. x \<in> set cs) s)))"

text \<open>One line of \<^verbatim>\<open>git remote -v\<close>: \<^verbatim>\<open>remote<TAB>url (mode)\<close>.\<close>

definition parse_line :: "remote_mode_url \<Rightarrow> string \<Rightarrow> remote_mode_url" where
  "parse_line rmu line =
     (if line = [] then rmu
      else (case rpartition (CHR 0x09) line of (remote, url_mode) \<Rightarrow>
        (let mode_url = (case dict_get rmu remote of None \<Rightarrow> [] | Some m \<Rightarrow> m)
         in (case rpartition (CHR '' '') url_mode of (url, mode) \<Rightarrow>
              dict_set remote (dict_set (strip ''()'' mode) url mode_url) rmu))))"

definition remote_mode_url :: "env \<Rightarrow> string \<Rightarrow> query" where
  "remote_mode_url e project =
     (let result = run e (GitRemoteV project)
      in if returncode result \<noteq> 0 then CalledProcessError (stderr result)
         else Ok (foldl parse_line [] (split_on (CHR 0x0A) (stdout result))))"

subsection \<open>Clone candidates: \<^verbatim>\<open>_fetchable_remote_urls\<close>\<close>

text \<open>
  The generator walks \<^verbatim>\<open>remote_mode_url.items()\<close>, that is the dictionary in its own
  (insertion) order, and yields the remotes whose \<^verbatim>\<open>fetch\<close> URL is present and not empty.
\<close>

definition fetchable_remote_urls :: "remote_mode_url \<Rightarrow> (string \<times> string) list" where
  "fetchable_remote_urls rmu =
     concat (map (\<lambda>(remote, mode_url).
                    case dict_get mode_url ''fetch'' of
                      None \<Rightarrow> []
                    | Some fetch_url \<Rightarrow> if fetch_url \<noteq> [] then [(remote, fetch_url)] else [])
                 rmu)"

text \<open>
  The clone loop of \<^verbatim>\<open>main\<close>: a failed clone is logged and the next candidate tried, the
  first success ends the loop (\<^verbatim>\<open>break\<close>), and the \<^verbatim>\<open>else\<close> of the loop logs an error
  when no candidate succeeded.
\<close>

fun clone_loop :: "env \<Rightarrow> string \<Rightarrow> (string \<times> string) list
    \<Rightarrow> event list \<times> (string \<times> string) option" where
  "clone_loop e project [] = ([Log ERROR [project] UnableToClone], None)"
| "clone_loop e project ((remote, url) # candidates) =
     (let cmd = GitClone remote url project; result = run e cmd
      in if returncode result \<noteq> 0
         then (case clone_loop e project candidates of
                 (evs, r) \<Rightarrow>
                   (Run cmd # Log WARNING [project, remote] (CloneFailed url (stderr result)) # evs, r))
         else ([Run cmd, Log INFO [project, remote] (CloneComplete url (stderr result))],
               Some (remote, url)))"

subsection \<open>Mode scope\<close>

text \<open>The body of the loop over \<^verbatim>\<open>sorted(set(expected_mode_url).union(observed_mode_url))\<close>.\<close>

definition sync_mode :: "args \<Rightarrow> env \<Rightarrow> string \<Rightarrow> string \<Rightarrow> mode_url \<Rightarrow> string \<Rightarrow> mode_url
    \<Rightarrow> mode_url result" where
  "sync_mode a e project remote expected_mode_url mode observed_mode_url =
     (let prefix = [project, remote, mode];
          observed_url = dict_get observed_mode_url mode;
          unexpected = ([Log WARNING prefix UnexpectedMode], observed_mode_url, None)
      in case dict_get expected_mode_url mode of
           None \<Rightarrow> unexpected
         | Some expected_url \<Rightarrow>
             if expected_url = [] then unexpected
             else if Some expected_url \<noteq> observed_url then
               (if \<not> set_urls a
                then ([Log DEBUG prefix ModeSyncNeeded, Log WARNING prefix SkippingSetUrls],
                      observed_mode_url, None)
                else
                  (let cmd = GitRemoteSetUrl project (mode = ''push'') remote expected_url;
                       evs = [Log DEBUG prefix ModeSyncNeeded,
                              Log INFO prefix (Changing observed_url expected_url), Run cmd]
                   in if returncode (run e cmd) \<noteq> 0
                      then (evs, observed_mode_url, Some (Uncaught cmd))
                      else (evs, dict_set mode expected_url observed_mode_url, None)))
             else ([], observed_mode_url, None))"

subsection \<open>Remote scope\<close>

text \<open>
  From \<^verbatim>\<open>remote exists\<close> on: the mode loop runs on the dictionary stored under the remote
  and updates it in place, so what it did is in the remote map also when it raises.
\<close>

definition sync_modes :: "args \<Rightarrow> env \<Rightarrow> string \<Rightarrow> string \<Rightarrow> mode_url \<Rightarrow> mode_url
    \<Rightarrow> remote_mode_url \<Rightarrow> remote_mode_url result" where
  "sync_modes a e project remote expected_mode_url observed_mode_url observed_rmu =
     emit [Log DEBUG [project, remote] RemoteExists]
       (map_state (\<lambda>observed_mode_url'. dict_set remote observed_mode_url' observed_rmu)
          (for_each (sync_mode a e project remote expected_mode_url)
             (sorted_union expected_mode_url observed_mode_url) observed_mode_url))"

text \<open>The body of the loop over the remotes of one project.\<close>

definition sync_remote :: "args \<Rightarrow> env \<Rightarrow> string \<Rightarrow> remote_mode_url \<Rightarrow> string \<Rightarrow> remote_mode_url
    \<Rightarrow> remote_mode_url result" where
  "sync_remote a e project expected_rmu remote observed_rmu =
     (let prefix = [project, remote];
          observed_mode_url = dict_get observed_rmu remote;
          unexpected = ([Log WARNING prefix UnexpectedRemote], observed_rmu, None)
      in case dict_get expected_rmu remote of
           None \<Rightarrow> unexpected
         | Some expected_mode_url \<Rightarrow>
             if expected_mode_url = [] then unexpected
             else if (case observed_mode_url of
                        None \<Rightarrow> True
                      | Some m \<Rightarrow> \<not> mode_url_eq expected_mode_url m) then
               emit [Log DEBUG prefix RemoteSyncNeeded]
                 (if \<not> dict_in remote observed_rmu then
                    (if \<not> set_urls a
                     then ([Log WARNING prefix SkippingSetUrls], observed_rmu, None)
                     else emit [Log INFO prefix Adding]
                       (case dict_values expected_mode_url of
                          [] \<Rightarrow> ([Log ERROR prefix UnableToAddRemote], observed_rmu, None)
                        | url # _ \<Rightarrow>
                            (let cmd = GitRemoteAdd project remote url
                             in if returncode (run e cmd) \<noteq> 0
                                then ([Run cmd], observed_rmu, Some (Uncaught cmd))
                                else
                                  (let added = [(''fetch'', url), (''push'', url)]
                                   in emit [Run cmd]
                                        (sync_modes a e project remote expected_mode_url added
                                           (dict_set remote added observed_rmu))))))
                  else (case observed_mode_url of
                          None \<Rightarrow> ([Log DEBUG prefix RemoteExists], observed_rmu,
                                   Some (AssertionError 308))
                        | Some m \<Rightarrow>
                            sync_modes a e project remote expected_mode_url m observed_rmu))
             else ([], observed_rmu, None))"

subsection \<open>Project scope\<close>

text \<open>
  From \<^verbatim>\<open>clone exists\<close> on: the remote loop runs on the dictionary stored under the
  project and updates it in place.
\<close>

definition sync_remotes :: "args \<Rightarrow> env \<Rightarrow> string \<Rightarrow> remote_mode_url \<Rightarrow> remote_mode_url
    \<Rightarrow> topology \<Rightarrow> topology result" where
  "sync_remotes a e project expected_rmu observed_rmu observed =
     emit [Log DEBUG [project] CloneExists]
       (map_state (\<lambda>observed_rmu'. dict_set project (Ok observed_rmu') observed)
          (for_each (sync_remote a e project expected_rmu)
             (sorted_union expected_rmu observed_rmu) observed_rmu))"

text \<open>\<^verbatim>\<open>git fetch --all --tags --prune\<close> when \<^verbatim>\<open>--fetch\<close> is given; its failure is logged.\<close>

definition fetch_all :: "args \<Rightarrow> env \<Rightarrow> string \<Rightarrow> event list" where
  "fetch_all a e project =
     (if fetch a then
        (let result = run e (GitFetch project)
         in [Log INFO [project] FetchingAll, Run (GitFetch project)]
            @ (if stdout result \<noteq> [] then [Log INFO [project] (FetchedUpdates (stdout result))]
               else [])
            @ (if returncode result \<noteq> 0 then [Log WARNING [project] (FetchFailed (stderr result))]
               else []))
      else [])"

text \<open>
  The fetch and the three informational checks. \<^verbatim>\<open>git show-ref\<close> is run without a check
  of its return code; \<^verbatim>\<open>git stash list\<close> and \<^verbatim>\<open>git ls-files\<close> go through
  \<^verbatim>\<open>check_output\<close>, which raises when they fail.
\<close>

definition post_checks :: "args \<Rightarrow> env \<Rightarrow> string \<Rightarrow> topology \<Rightarrow> topology result" where
  "post_checks a e project observed =
     (let branches = run e (GitShowRef project);
          stash = run e (GitStashList project);
          untracked = run e (GitLsFiles project);
          evs1 = fetch_all a e project
            @ [Log DEBUG [project] CheckingBranches, Run (GitShowRef project)]
            @ (if returncode branches = 0 then [Log INFO [project] (LocalBranches (stdout branches))]
               else [])
            @ [Log DEBUG [project] CheckingStash, Run (GitStashList project)];
          evs2 = evs1
            @ (if stdout stash \<noteq> [] then [Log INFO [project] (StashedChanges (stdout stash))]
               else [])
            @ [Log DEBUG [project] CheckingUntracked, Run (GitLsFiles project)]
      in if returncode stash \<noteq> 0 then (evs1, observed, Some (Uncaught (GitStashList project)))
         else if returncode untracked \<noteq> 0
         then (evs2, observed, Some (Uncaught (GitLsFiles project)))
         else (evs2 @ (if stdout untracked \<noteq> []
                       then [Log INFO [project] (UntrackedFiles (stdout untracked))] else []),
               observed, None))"

text \<open>
  \<^verbatim>\<open>expected_remote_mode_url != observed_remote_mode_url\<close> on what \<^verbatim>\<open>dict.get\<close> returned.
  Both are a dictionary or \<^verbatim>\<open>None\<close> where the comparison is made (a
  \<^verbatim>\<open>CalledProcessError\<close> has left the loop body before); exceptions compare by identity.
\<close>

definition query_eq :: "query option \<Rightarrow> query option \<Rightarrow> bool" where
  "query_eq x y =
     (case (x, y) of
        (None, None) \<Rightarrow> True
      | (Some (Ok m), Some (Ok n)) \<Rightarrow> remote_mode_url_eq m n
      | (Some (CalledProcessError s), Some (CalledProcessError t)) \<Rightarrow> s = t
      | _ \<Rightarrow> False)"

text \<open>
  \<^verbatim>\<open>expected\<close> is the loaded document, or without \<^verbatim>\<open>--spec\<close> the very object
  \<^verbatim>\<open>observed\<close> (\<open>None\<close> here), so that it is read through the current \<open>observed\<close>.
\<close>

definition the_expected :: "topology option \<Rightarrow> topology \<Rightarrow> topology" where
  "the_expected spec_doc observed = (case spec_doc of None \<Rightarrow> observed | Some t \<Rightarrow> t)"

text \<open>The body of the loop over the projects.\<close>

definition check_project :: "args \<Rightarrow> env \<Rightarrow> topology option \<Rightarrow> string \<Rightarrow> topology
    \<Rightarrow> topology result" where
  "check_project a e spec_doc project observed =
     (case pattern a of
        InvalidRegex \<Rightarrow> ([], observed, Some (SystemExit 2))
      | Regex search \<Rightarrow>
          if \<not> search project then ([Log DEBUG [project] Ignoring], observed, None)
          else emit [Log DEBUG [project] ProjectPath]
            (let expected = the_expected spec_doc observed;
                 expected_rmu = dict_get expected project;
                 observed_rmu = dict_get observed project
             in case observed_rmu of
                  Some (CalledProcessError err) \<Rightarrow>
                    ([Log ERROR [project] (QueryStderr err)], observed, None)
                | _ \<Rightarrow>
                  (case expected_rmu of
                     Some (CalledProcessError err) \<Rightarrow> ([], observed, Some (AssertionError 214))
                   | _ \<Rightarrow>
                     if \<not> dict_in project expected
                     then emit [Log WARNING [project] UnexpectedProject]
                            (post_checks a e project observed)
                     else if \<not> query_eq expected_rmu observed_rmu then
                       emit [Log DEBUG [project] ProjectSyncNeeded]
                         (case expected_rmu of
                            Some (Ok expected_remotes) \<Rightarrow>
                              (if \<not> dict_in project observed then
                                 (if \<not> clone a
                                  then ([Log WARNING [project] SkippingClone], observed, None)
                                  else emit [Log INFO [project] Cloning]
                                    (case clone_loop e project
                                            (fetchable_remote_urls expected_remotes) of
                                       (evs, None) \<Rightarrow> (evs, observed, None)
                                     | (evs, Some (remote, url)) \<Rightarrow>
                                         (let cloned = [(remote, [(''fetch'', url), (''push'', url)])]
                                          in emit evs
                                               (and_then
                                                  (sync_remotes a e project expected_remotes cloned
                                                     (dict_set project (Ok cloned) observed))
                                                  (post_checks a e project)))))
                               else (case observed_rmu of
                                       Some (Ok observed_remotes) \<Rightarrow>
                                         and_then
                                           (sync_remotes a e project expected_remotes
                                              observed_remotes observed)
                                           (post_checks a e project)
                                     | _ \<Rightarrow> ([Log DEBUG [project] CloneExists], observed,
                                             Some (AssertionError 262))))
                          | _ \<Rightarrow> ([], observed, Some (AssertionError 221)))
                     else post_checks a e project observed)))"

subsection \<open>The run\<close>

text \<open>The loop over \<^verbatim>\<open>sorted(set(expected).union(observed))\<close>.\<close>

definition check_projects :: "args \<Rightarrow> env \<Rightarrow> topology option \<Rightarrow> topology \<Rightarrow> topology result" where
  "check_projects a e spec_doc observed =
     for_each (check_project a e spec_doc)
       (sorted_union (the_expected spec_doc observed) observed) observed"

text \<open>
  The dictionary written by \<^verbatim>\<open>--spec-create\<close>: the items of \<^verbatim>\<open>expected\<close> whose value is
  not a \<^verbatim>\<open>CalledProcessError\<close> (\<^verbatim>\<open>json.dump\<close> writes it with sorted keys).
\<close>

definition spec_document :: "topology \<Rightarrow> (string, remote_mode_url) dict" where
  "spec_document expected =
     concat (map (\<lambda>(project, q). case q of Ok rmu \<Rightarrow> [(project, rmu)]
                                   | CalledProcessError err \<Rightarrow> []) expected)"

record outcome =
  events :: "event list"
  final_observed :: topology
  written :: "(string \<times> (string, remote_mode_url) dict) option"
  ending :: abort

definition write_spec :: "args \<Rightarrow> env \<Rightarrow> topology option \<Rightarrow> event list \<Rightarrow> topology \<Rightarrow> outcome" where
  "write_spec a e spec_doc evs observed =
     (case spec_create a of
        None \<Rightarrow> \<lparr>events = evs, final_observed = observed, written = None, ending = SystemExit 0\<rparr>
      | Some path \<Rightarrow>
          if (\<not> spec_create_overwrite a \<and> file_exists e path) \<or> open_oserror e path
          then \<lparr>events = evs @ [Log INFO [] (WritingSpec path), Log ERROR [] OSErrorMessage],
                final_observed = observed, written = None, ending = SystemExit 1\<rparr>
          else \<lparr>events = evs @ [Log INFO [] (WritingSpec path)], final_observed = observed,
                written = Some (path, spec_document (the_expected spec_doc observed)),
                ending = SystemExit 0\<rparr>)"

text \<open>\<^verbatim>\<open>main\<close>, after argument parsing.\<close>

definition main :: "args \<Rightarrow> env \<Rightarrow> outcome" where
  "main argv e =
     (let a = apply_sync argv
      in case listdir e of
           None \<Rightarrow> \<lparr>events = [], final_observed = [], written = None, ending = SystemExit 2\<rparr>
         | Some names \<Rightarrow>
             (let observed = foldl (\<lambda>d project. dict_set project (remote_mode_url e project) d)
                               [] names;
                  queries = map (\<lambda>project. Run (GitRemoteV project)) names
              in case (case spec a of
                         None \<Rightarrow> Inr None
                       | Some path \<Rightarrow>
                           (case load_spec e path of
                              Inl err \<Rightarrow> Inl path
                            | Inr doc \<Rightarrow> Inr (Some (map (\<lambda>(project, rmu). (project, Ok rmu)) doc)))) of
                   Inl path \<Rightarrow>
                     \<lparr>events = queries @ [Log DEBUG [] (LoadingSpec path)],
                      final_observed = observed, written = None, ending = SystemExit 2\<rparr>
                 | Inr spec_doc \<Rightarrow>
                     (let loading = (case spec a of None \<Rightarrow> []
                                     | Some path \<Rightarrow> [Log DEBUG [] (LoadingSpec path)])
                      in case check_projects a e spec_doc observed of
                           (evs, observed', Some x) \<Rightarrow>
                             \<lparr>events = queries @ loading @ evs, final_observed = observed',
                              written = None, ending = x\<rparr>
                         | (evs, observed', None) \<Rightarrow>
                             write_spec a e spec_doc (queries @ loading @ evs) observed')))"

subsection \<open>Reading the event stream\<close>

text \<open>The corrective actions: clone, add-remote and set-url invocations.\<close>

fun is_corrective :: "event \<Rightarrow> bool" where
  "is_corrective (Run (GitClone remote url project)) = True"
| "is_corrective (Run (GitRemoteAdd project remote url)) = True"
| "is_corrective (Run (GitRemoteSetUrl project push remote url)) = True"
| "is_corrective ev = False"

definition corrective :: "event list \<Rightarrow> event list" where
  "corrective evs = filter is_corrective evs"

text \<open>Clone invocations, and log records at warning level.\<close>

fun is_clone :: "event \<Rightarrow> bool" where
  "is_clone (Run (GitClone remote url project)) = True"
| "is_clone ev = False"

fun is_warning :: "event \<Rightarrow> bool" where
  "is_warning (Log WARNING prefix m) = True"
| "is_warning ev = False"

text \<open>
  The clone candidates in the words of the specification: the expected remotes that have a
  fetch URL (present and not empty), here in the order of the expected dictionary itself;
  and the candidates a clone is attempted from, up to and including the first success.
\<close>

definition has_fetch_url :: "mode_url \<Rightarrow> bool" where
  "has_fetch_url mode_url = (case dict_get mode_url ''fetch'' of None \<Rightarrow> False | Some url \<Rightarrow> url \<noteq> [])"

definition clone_candidates :: "remote_mode_url \<Rightarrow> (string \<times> string) list" where
  "clone_candidates rmu =
     map (\<lambda>(remote, mode_url). (remote, the (dict_get mode_url ''fetch'')))
       (filter (\<lambda>(remote, mode_url). has_fetch_url mode_url) rmu)"

fun attempted :: "env \<Rightarrow> string \<Rightarrow> (string \<times> string) list \<Rightarrow> (string \<times> string) list" where
  "attempted e project [] = []"
| "attempted e project ((remote, url) # candidates) =
     (remote, url) # (if returncode (run e (GitClone remote url project)) \<noteq> 0
                      then attempted e project candidates else [])"

text \<open>Every event of a result satisfies a predicate.\<close>

definition events_all :: "(event \<Rightarrow> bool) \<Rightarrow> 's result \<Rightarrow> bool" where
  "events_all P r = list_all P (fst r)"

text \<open>The projects of a topology whose query succeeded.\<close>

fun is_ok :: "string \<times> query \<Rightarrow> bool" where
  "is_ok (project, Ok rmu) = True"
| "is_ok (project, CalledProcessError err) = False"

text \<open>
  The commands run with \<^verbatim>\<open>check=True\<close>: add-remote and set-url. A failed action is such
  a command whose return code is not zero. \<open>fatal_last\<close>: a failed action among the events of
  a result is its last event, and the result is the exception the command raised.
\<close>

fun is_checked_action :: "git \<Rightarrow> bool" where
  "is_checked_action (GitRemoteAdd project remote url) = True"
| "is_checked_action (GitRemoteSetUrl project push remote url) = True"
| "is_checked_action c = False"

definition failed_action :: "env \<Rightarrow> event \<Rightarrow> bool" where
  "failed_action e ev =
     (case ev of Run c \<Rightarrow> is_checked_action c \<and> returncode (run e c) \<noteq> 0 | Log l p m \<Rightarrow> False)"

definition fatal_last :: "env \<Rightarrow> 's result \<Rightarrow> bool" where
  "fatal_last e r =
     (\<forall>c. failed_action e (Run c) \<and> Run c \<in> set (fst r) \<longrightarrow>
          snd (snd r) = Some (Uncaught c) \<and> last (fst r) = Run c)"

text \<open>A command that was run returned zero.\<close>

fun succeeded :: "env \<Rightarrow> event \<Rightarrow> bool" where
  "succeeded e (Run c) = (returncode (run e c) = 0)"
| "succeeded e (Log l p m) = True"

text \<open>
  What a finished run leaves behind at each scope, in terms of the decisions of the code: a
  mode is settled when it is not expected (absent or empty), or observed with the expected
  URL, or \<^verbatim>\<open>--set-urls\<close> is not given; a remote is settled when it is not expected, or it
  is not observed and \<^verbatim>\<open>--set-urls\<close> is not given, or it is observed and all its modes are
  settled; a project is settled when the pattern does not select it, or \<^verbatim>\<open>expected\<close> is
  \<^verbatim>\<open>observed\<close>, or it is not expected, or its query failed, or it is not observed and
  cannot be cloned (no \<^verbatim>\<open>--clone\<close>, or no candidate), or it is observed and all its remotes
  are settled.
\<close>

definition mode_settled :: "args \<Rightarrow> mode_url \<Rightarrow> string \<Rightarrow> mode_url \<Rightarrow> bool" where
  "mode_settled a E m obs =
     (case dict_get E m of None \<Rightarrow> True
      | Some url \<Rightarrow> url = [] \<or> dict_get obs m = Some url \<or> \<not> set_urls a)"

definition remote_settled :: "args \<Rightarrow> remote_mode_url \<Rightarrow> string \<Rightarrow> remote_mode_url \<Rightarrow> bool" where
  "remote_settled a E r obs =
     (case dict_get E r of None \<Rightarrow> True
      | Some modes \<Rightarrow> modes = [] \<or>
          (case dict_get obs r of None \<Rightarrow> \<not> set_urls a
           | Some obs_modes \<Rightarrow> \<forall>m. mode_settled a modes m obs_modes))"

definition project_settled :: "args \<Rightarrow> topology option \<Rightarrow> string \<Rightarrow> topology \<Rightarrow> bool" where
  "project_settled a spec_doc p obs =
     (case pattern a of InvalidRegex \<Rightarrow> True
      | Regex search \<Rightarrow> \<not> search p \<or>
          (case spec_doc of None \<Rightarrow> True
           | Some expected \<Rightarrow>
               (case dict_get expected p of
                  Some (Ok E) \<Rightarrow>
                    (case dict_get obs p of
                       None \<Rightarrow> \<not> clone a \<or> fetchable_remote_urls E = []
                     | Some (Ok R) \<Rightarrow> \<forall>r. remote_settled a E r R
                     | Some (CalledProcessError err) \<Rightarrow> True)
                | _ \<Rightarrow> True)))"

subsection \<open>Example inputs\<close>

text \<open>Concrete arguments and environments at which the theorems below are instantiated.\<close>

definition succeed :: completed where
  "succeed = \<lparr>returncode = 0, stdout = [], stderr = []\<rparr>"

definition fail :: completed where
  "fail = \<lparr>returncode = 1, stdout = [], stderr = ''fatal''\<rparr>"

definition example_env :: "string list \<Rightarrow> (string, remote_mode_url) dict \<Rightarrow> (git \<Rightarrow> completed) \<Rightarrow> env" where
  "example_env names doc r =
     \<lparr>listdir = Some names, run = r, load_spec = (\<lambda>path. Inr doc),
      file_exists = (\<lambda>path. False), open_oserror = (\<lambda>path. False)\<rparr>"

definition example_args :: args where
  "example_args =
     \<lparr>clone = True, fetch = False, set_urls = True, sync = False, spec = Some ''spec.json'',
      spec_create = None, spec_create_overwrite = False, pattern = Regex (\<lambda>name. True)\<rparr>"

definition export_args :: args where
  "export_args = example_args\<lparr>spec_create := Some ''out.json''\<rparr>"

definition export_env :: env where
  "export_env = example_env [''a'', ''b''] [(''a'', [(''origin'', [(''fetch'', ''u'')])])]
     (\<lambda>c. if c = GitRemoteV ''a'' then fail else succeed)"


definition abort_env :: env where
  "abort_env = example_env [''p'', ''q'']
     [(''p'', [(''origin'', [(''fetch'', ''u'')])]), (''q'', [(''origin'', [(''fetch'', ''v'')])])]
     (\<lambda>c. if c = GitRemoteAdd ''p'' ''origin'' ''u'' then fail else succeed)"



subsection \<open>Predicates on results\<close>

text \<open>The loop (or loop body) did not end in a failed \<^verbatim>\<open>assert\<close>.\<close>

definition no_assert :: "'s result \<Rightarrow> bool" where
  "no_assert r = (\<forall>n. snd (snd r) \<noteq> Some (AssertionError n))"

section \<open>Properties\<close>

subsection \<open>Dictionaries and loops\<close>

lemma dict_in_get: "dict_in k d \<longleftrightarrow> dict_get d k \<noteq> None"
  by (simp add: dict_in_def dict_get_def map_of_eq_None_iff)

lemma dict_get_set: "dict_get (dict_set k v d) k' = (if k' = k then Some v else dict_get d k')"
  by (induction d) (auto simp: dict_get_def)

lemma dict_keys_set: "set (dict_keys (dict_set k v d)) = insert k (set (dict_keys d))"
  by (induction d) (auto simp: dict_keys_def)

lemma emit_simps [simp]: "emit xs (evs, s, x) = (xs @ evs, s, x)"
  by (simp add: emit_def)

lemma snd_emit [simp]: "snd (emit xs r) = snd r"
  by (simp add: emit_def split: prod.splits)

lemma fst_emit [simp]: "fst (emit xs r) = xs @ fst r"
  by (simp add: emit_def split: prod.splits)

subsection \<open>No assertion of \<^verbatim>\<open>main\<close> fails\<close>

lemma no_assert_emit [simp]: "no_assert (emit xs r) = no_assert r"
  by (simp add: no_assert_def)

lemma no_assert_triple [simp]: "no_assert (evs, s, x) = (\<forall>n. x \<noteq> Some (AssertionError n))"
  by (simp add: no_assert_def)

lemma no_assert_map_state [simp]: "no_assert (map_state f r) = no_assert r"
  by (cases r) (simp add: map_state_def)

lemma no_assert_and_then [simp]:
  "no_assert r \<Longrightarrow> (\<And>s. no_assert (f s)) \<Longrightarrow> no_assert (and_then r f)"
  by (cases r) (auto simp: and_then_def split: option.splits)

lemma no_assert_for_each: "(\<And>k s. no_assert (body k s)) \<Longrightarrow> no_assert (for_each body ks s)"
  by (induction ks arbitrary: s) simp_all

lemma no_assert_sync_mode:
  "no_assert (sync_mode a e project remote expected_mode_url mode observed_mode_url)"
  by (simp add: sync_mode_def Let_def split: option.splits)

lemma no_assert_sync_modes: "no_assert (sync_modes a e project remote em om orm)"
  by (simp add: sync_modes_def no_assert_for_each no_assert_sync_mode)

lemma no_assert_sync_remote:
  "no_assert (sync_remote a e project expected_rmu remote observed_rmu)"
  by (simp add: sync_remote_def Let_def dict_in_get no_assert_sync_modes
      split: option.splits list.splits)

lemma no_assert_sync_remotes: "no_assert (sync_remotes a e project er orm obs)"
  by (simp add: sync_remotes_def no_assert_for_each no_assert_sync_remote)

lemma no_assert_post_checks: "no_assert (post_checks a e project obs)"
  by (simp add: post_checks_def Let_def)

lemma loaded_not_failed:
  "dict_get (map (\<lambda>(project, rmu). (project, Ok rmu)) doc) project
     \<noteq> Some (CalledProcessError err)"
  by (induction doc) (auto simp: dict_get_def)

text \<open>
  One iteration: whether \<^verbatim>\<open>expected\<close> is \<^verbatim>\<open>observed\<close> itself or a loaded document, the
  body raises no \<^verbatim>\<open>AssertionError\<close>.
\<close>

lemma no_assert_check_project:
  assumes "spec_doc = None \<or> spec_doc = Some (map (\<lambda>(project, rmu). (project, Ok rmu)) doc)"
  shows "no_assert (check_project a e spec_doc project observed)"
  using assms
  by (auto simp add: check_project_def the_expected_def Let_def dict_in_get loaded_not_failed
      no_assert_post_checks no_assert_sync_remotes
      split: pattern.splits option.splits query.splits prod.splits)

lemma no_assert_check_projects:
  assumes "spec_doc = None \<or> spec_doc = Some (map (\<lambda>(project, rmu). (project, Ok rmu)) doc)"
  shows "no_assert (check_projects a e spec_doc observed)"
  unfolding check_projects_def
  by (rule no_assert_for_each) (rule no_assert_check_project[OF assms])

lemma ending_write_spec: "ending (write_spec a e spec_doc evs observed) \<noteq> AssertionError n"
  by (simp add: write_spec_def split: option.splits)

text \<open>
  Claim C9. The assertion of line 214, that the expected value of the project is not a
  \<^verbatim>\<open>CalledProcessError\<close>, holds in every iteration of every run: a loaded document holds
  no failure value, and when \<^verbatim>\<open>expected\<close> is \<^verbatim>\<open>observed\<close> the branch for a failed query
  has left the body before. No run of \<^verbatim>\<open>main\<close> ends in that \<^verbatim>\<open>AssertionError\<close>.
\<close>

theorem expected_never_query_failure: "ending (main argv e) \<noteq> AssertionError 214"
proof (cases "listdir e")
  case None
  then show ?thesis by (simp add: main_def Let_def)
next
  case (Some names)
  define a where "a = apply_sync argv"
  define observed where
    "observed = foldl (\<lambda>d project. dict_set project (remote_mode_url e project) d) [] names"
  show ?thesis
  proof (cases "spec a")
    case None
    have na: "no_assert (check_projects a e None observed)"
      by (rule no_assert_check_projects) simp
    obtain evs obs x where r: "check_projects a e None observed = (evs, obs, x)"
      by (cases "check_projects a e None observed")
    with na have "x \<noteq> Some (AssertionError 214)" by simp
    with r Some None show ?thesis
      by (cases x)
        (auto simp: main_def Let_def ending_write_spec a_def[symmetric] observed_def[symmetric])
  next
    case (Some path)
    show ?thesis
    proof (cases "load_spec e path")
      case (Inl err)
      with Some \<open>listdir e = Some names\<close> show ?thesis
        by (simp add: main_def Let_def a_def[symmetric])
    next
      case (Inr doc)
      let ?sd = "Some (map (\<lambda>(project, rmu). (project, Ok rmu)) doc)"
      have na: "no_assert (check_projects a e ?sd observed)"
        by (rule no_assert_check_projects) simp
      obtain evs obs x where r: "check_projects a e ?sd observed = (evs, obs, x)"
        by (cases "check_projects a e ?sd observed")
      with na have "x \<noteq> Some (AssertionError 214)" by simp
      with r Some Inr \<open>listdir e = Some names\<close> show ?thesis
        by (cases x)
          (auto simp: main_def Let_def ending_write_spec a_def[symmetric] observed_def[symmetric])
    qed
  qed
qed

subsection \<open>Empty expected entries\<close>

text \<open>
  Claim C10. At remote scope an expected remote mapped to an empty mode dictionary, and at
  mode scope an expected mode mapped to the empty URL, get the treatment of an absent entry:
  the only event is the warning \<^verbatim>\<open>unexpected remote\<close> (\<^verbatim>\<open>unexpected mode\<close>), no git command
  is run, and the observed dictionary is unchanged.
\<close>

theorem empty_expected_entry_like_absent:
  "(dict_get expected_rmu remote \<in> {None, Some []} \<longrightarrow>
      sync_remote a e project expected_rmu remote observed_rmu =
        ([Log WARNING [project, remote] UnexpectedRemote], observed_rmu, None))
   \<and> (dict_get expected_mode_url mode \<in> {None, Some []} \<longrightarrow>
      sync_mode a e project remote expected_mode_url mode observed_mode_url =
        ([Log WARNING [project, remote, mode] UnexpectedMode], observed_mode_url, None))"
  by (auto simp: sync_remote_def sync_mode_def Let_def)

theorem empty_expected_entry_like_absent_witness:
  "dict_get [(''origin'', [])] ''origin'' \<in> {None, Some []}
   \<and> sync_remote example_args (example_env [] [] (\<lambda>c. succeed)) ''p'' [(''origin'', [])] ''origin''
        [(''origin'', [(''fetch'', ''u'')])] =
      ([Log WARNING [''p'', ''origin''] UnexpectedRemote], [(''origin'', [(''fetch'', ''u'')])], None)
   \<and> dict_get [(''fetch'', ''u''), (''push'', [])] ''push'' \<in> {None, Some []}
   \<and> sync_mode example_args (example_env [] [] (\<lambda>c. succeed)) ''p'' ''origin''
        [(''fetch'', ''u''), (''push'', [])] ''push'' [(''fetch'', ''u''), (''push'', ''v'')] =
      ([Log WARNING [''p'', ''origin'', ''push''] UnexpectedMode],
       [(''fetch'', ''u''), (''push'', ''v'')], None)"
  using empty_expected_entry_like_absent
    [of "[(''origin'', [])]" "''origin''" example_args "example_env [] [] (\<lambda>c. succeed)" "''p''"
        "[(''origin'', [(''fetch'', ''u'')])]" "[(''fetch'', ''u''), (''push'', [])]" "''push''"
        "[(''fetch'', ''u''), (''push'', ''v'')]"]
  by (simp add: dict_get_def)

subsection \<open>A failed query abandons the project, not the run\<close>

text \<open>
  Claim C8. When the loop reaches a project that passes the name filter and whose observed
  value is the \<^verbatim>\<open>CalledProcessError\<close> of its query, it logs the standard error of the query
  at error level and goes on with the remaining projects on the same observed topology: no
  git command (corrective or informational) is run for the project, and nothing is raised.
  The query itself returns the error of a failed \<^verbatim>\<open>git remote -v\<close> as a value.
\<close>

theorem query_failure_abandons_project:
  assumes "pattern a = Regex search" and "search project"
    and "dict_get observed project = Some (CalledProcessError err)"
  shows "for_each (check_project a e spec_doc) (project # projects) observed =
           emit [Log DEBUG [project] ProjectPath, Log ERROR [project] (QueryStderr err)]
             (for_each (check_project a e spec_doc) projects observed)
       \<and> (returncode (run e (GitRemoteV project)) \<noteq> 0 \<longrightarrow>
            remote_mode_url e project = CalledProcessError (stderr (run e (GitRemoteV project))))"
  using assms by (simp add: check_project_def Let_def and_then_def remote_mode_url_def)

theorem query_failure_abandons_project_witness:
  "pattern example_args = Regex (\<lambda>name. True) \<and> (\<lambda>name. True) ''p''
   \<and> dict_get [(''p'', CalledProcessError ''fatal'')] ''p'' = Some (CalledProcessError ''fatal'')
   \<and> returncode (run (example_env [] [] (\<lambda>c. fail)) (GitRemoteV ''p'')) \<noteq> 0
   \<and> remote_mode_url (example_env [] [] (\<lambda>c. fail)) ''p'' = CalledProcessError ''fatal''
   \<and> for_each (check_project example_args (example_env [] [] (\<lambda>c. fail)) None) [''p'']
        [(''p'', CalledProcessError ''fatal'')] =
      ([Log DEBUG [''p''] ProjectPath, Log ERROR [''p''] (QueryStderr ''fatal'')],
       [(''p'', CalledProcessError ''fatal'')], None)"
  using query_failure_abandons_project
    [of example_args "\<lambda>name. True" "''p''" "[(''p'', CalledProcessError ''fatal'')]" "''fatal''"
        "example_env [] [] (\<lambda>c. fail)" None "[]"]
  by (simp add: example_args_def example_env_def fail_def dict_get_def)

subsection \<open>Evaluating loops and event streams\<close>

lemma dict_get_in: "dict_get d k = Some v \<Longrightarrow> dict_in k d"
  by (simp add: dict_in_get)

lemma corrective_simps [simp]:
  "corrective [] = []"
  "corrective (ev # evs) = (if is_corrective ev then ev # corrective evs else corrective evs)"
  "corrective (xs @ ys) = corrective xs @ corrective ys"
  by (simp_all add: corrective_def)

lemma map_state_simps [simp]: "map_state f (evs, s, x) = (evs, f s, x)"
  by (simp add: map_state_def)

lemma and_then_simps [simp]:
  "and_then (evs, s, Some x) f = (evs, s, Some x)"
  "and_then (evs, s, None) f = emit evs (f s)"
  by (simp_all add: and_then_def)

lemma sorted_union_set: "sorted_union a b = sorted_list_of_set (set (dict_keys a) \<union> set (dict_keys b))"
  using sorted_list_of_set_sort_remdups[of "dict_keys a @ dict_keys b"]
  by (simp add: sorted_union_def)

lemma sorted_union_fetch_push:
  assumes "set (dict_keys a) \<union> set (dict_keys b) = {''fetch'', ''push''}"
  shows "sorted_union a b = [''fetch'', ''push'']"
  by (simp add: sorted_union_set assms)

lemma dict_eq_get:
  assumes "dict_eq (=) a b" and "dict_get a k = Some v"
  shows "dict_get b k = Some v"
proof -
  from assms(2) have "k \<in> set (dict_keys a)"
    by (metis dict_in_def dict_in_get dict_keys_def option.distinct(1))
  with assms show ?thesis
    by (auto simp: dict_eq_def list_all_iff split: option.splits)
qed

lemma emit_emit: "emit xs (emit ys r) = emit (xs @ ys) r"
  by (cases r) simp

lemma post_checks_state [simp]: "fst (snd (post_checks a e project observed)) = observed"
  by (simp add: post_checks_def Let_def)

lemma post_checks_corrective [simp]: "corrective (fst (post_checks a e project observed)) = []"
  by (simp add: post_checks_def fetch_all_def Let_def)

subsection \<open>Mode correction\<close>

text \<open>
  Claim C7. A remote whose expected modes are \<^verbatim>\<open>{fetch: X, push: Y}\<close> and whose observed
  modes are \<^verbatim>\<open>{fetch: X, push: Z}\<close> with \<open>Z \<noteq> Y\<close> (and \<open>Y\<close> a URL, that is not empty), under
  \<^verbatim>\<open>--set-urls\<close>: the only corrective command of the remote's iteration is
  \<^verbatim>\<open>git remote set-url --push remote Y\<close>; no set-url is run for the fetch mode; when the
  command succeeds the observed modes of the remote are the old ones with push set to \<open>Y\<close>,
  so fetch is still \<open>X\<close>. The dictionaries may list the two modes in either order.
\<close>

theorem push_mode_corrected:
  assumes "set_urls a" and "Y \<noteq> []" and "Z \<noteq> Y"
    and "dict_get expected_rmu remote = Some E"
    and "dict_get E ''fetch'' = Some X" and "dict_get E ''push'' = Some Y"
    and "dict_get observed_rmu remote = Some obs"
    and "dict_get obs ''fetch'' = Some X" and "dict_get obs ''push'' = Some Z"
    and "set (dict_keys E) \<union> set (dict_keys obs) = {''fetch'', ''push''}"
  shows "corrective (fst (sync_remote a e project expected_rmu remote observed_rmu)) =
           [Run (GitRemoteSetUrl project True remote Y)]
       \<and> (returncode (run e (GitRemoteSetUrl project True remote Y)) = 0 \<longrightarrow>
            snd (sync_remote a e project expected_rmu remote observed_rmu) =
              (dict_set remote (dict_set ''push'' Y obs) observed_rmu, None))
       \<and> dict_get (dict_set ''push'' Y obs) ''fetch'' = Some X
       \<and> dict_get (dict_set ''push'' Y obs) ''push'' = Some Y"
proof -
  let ?cmd = "GitRemoteSetUrl project True remote Y"
  let ?evs = "[Log DEBUG [project, remote, ''push''] ModeSyncNeeded,
               Log INFO [project, remote, ''push''] (Changing (Some Z) Y), Run ?cmd]"
  let ?w = "if X = [] then [Log WARNING [project, remote, ''fetch''] UnexpectedMode] else []"
  have fetch_step: "sync_mode a e project remote E ''fetch'' obs = (?w, obs, None)"
    using assms(5,8) by (simp add: sync_mode_def Let_def)
  have push_step: "sync_mode a e project remote E ''push'' obs =
      (if returncode (run e ?cmd) \<noteq> 0 then (?evs, obs, Some (Uncaught ?cmd))
       else (?evs, dict_set ''push'' Y obs, None))"
    using assms(1-3,6,9) by (simp add: sync_mode_def Let_def)
  have differ: "\<not> mode_url_eq E obs"
    using dict_eq_get[of E obs "''push''" Y] assms(3,6,9) by (auto simp: mode_url_eq_def)
  have nonempty: "E \<noteq> []"
    using assms(5) by (auto simp: dict_get_def)
  have modes: "sync_modes a e project remote E obs observed_rmu =
      (if returncode (run e ?cmd) \<noteq> 0
       then (Log DEBUG [project, remote] RemoteExists # ?w @ ?evs,
             dict_set remote obs observed_rmu, Some (Uncaught ?cmd))
       else (Log DEBUG [project, remote] RemoteExists # ?w @ ?evs,
             dict_set remote (dict_set ''push'' Y obs) observed_rmu, None))"
    by (simp add: sync_modes_def sorted_union_fetch_push[OF assms(10)] fetch_step push_step)
  have "sync_remote a e project expected_rmu remote observed_rmu =
      emit [Log DEBUG [project, remote] RemoteSyncNeeded]
        (sync_modes a e project remote E obs observed_rmu)"
    using assms(4,7) differ nonempty dict_get_in[OF assms(7)]
    by (simp add: sync_remote_def Let_def)
  then show ?thesis
    using assms(8) by (simp add: modes dict_get_set)
qed

theorem push_mode_corrected_witness:
  "set_urls example_args \<and> ''y'' \<noteq> [] \<and> ''z'' \<noteq> ''y''
   \<and> dict_get [(''origin'', [(''fetch'', ''x''), (''push'', ''y'')])] ''origin'' =
       Some [(''fetch'', ''x''), (''push'', ''y'')]
   \<and> dict_get [(''origin'', [(''fetch'', ''x''), (''push'', ''z'')])] ''origin'' =
       Some [(''fetch'', ''x''), (''push'', ''z'')]
   \<and> corrective (fst (sync_remote example_args (example_env [] [] (\<lambda>c. succeed)) ''p''
        [(''origin'', [(''fetch'', ''x''), (''push'', ''y'')])] ''origin''
        [(''origin'', [(''fetch'', ''x''), (''push'', ''z'')])])) =
       [Run (GitRemoteSetUrl ''p'' True ''origin'' ''y'')]
   \<and> snd (sync_remote example_args (example_env [] [] (\<lambda>c. succeed)) ''p''
        [(''origin'', [(''fetch'', ''x''), (''push'', ''y'')])] ''origin''
        [(''origin'', [(''fetch'', ''x''), (''push'', ''z'')])]) =
       ([(''origin'', [(''fetch'', ''x''), (''push'', ''y'')])], None)"
  using push_mode_corrected
    [of example_args "''y''" "''z''" "[(''origin'', [(''fetch'', ''x''), (''push'', ''y'')])]"
        "''origin''" "[(''fetch'', ''x''), (''push'', ''y'')]" "''x''"
        "[(''origin'', [(''fetch'', ''x''), (''push'', ''z'')])]"
        "[(''fetch'', ''x''), (''push'', ''z'')]"
        "example_env [] [] (\<lambda>c. succeed)" "''p''"]
  by (simp add: example_args_def example_env_def succeed_def dict_get_def dict_keys_def)


subsection \<open>Clone fallback\<close>

text \<open>
  Claim C6. A project absent from observed whose expected remotes are
  \<^verbatim>\<open>{a: {fetch: u1}, b: {fetch: u2}}\<close>, with \<^verbatim>\<open>--clone\<close>, the clone from \<open>a\<close> failing and the
  clone from \<open>b\<close> succeeding: the clone loop ends with \<open>b\<close>; remote-scope reconciliation
  starts from the observed state \<^verbatim>\<open>{b: {fetch: u2, push: u2}}\<close>; under \<^verbatim>\<open>--set-urls\<close> (and
  the add-remote command succeeding) remote \<open>a\<close> is added with both modes bound to \<open>u1\<close>, so
  that the final observed state of the project is
  \<^verbatim>\<open>{b: {fetch: u2, push: u2}, a: {fetch: u1, push: u1}}\<close>; without \<^verbatim>\<open>--set-urls\<close> it stays
  \<^verbatim>\<open>{b: {fetch: u2, push: u2}}\<close>. The corrective commands are the two clones and the
  add-remote, in this order.
\<close>

theorem clone_fallback_then_add:
  assumes "pattern a = Regex search" and "search project" and "clone a"
    and "u1 \<noteq> []" and "u2 \<noteq> []"
    and "\<not> dict_in project observed"
    and "dict_get expected project =
           Some (Ok [(''a'', [(''fetch'', u1)]), (''b'', [(''fetch'', u2)])])"
    and "returncode (run e (GitClone ''a'' u1 project)) \<noteq> 0"
    and "returncode (run e (GitClone ''b'' u2 project)) = 0"
    and "set_urls a \<longrightarrow> returncode (run e (GitRemoteAdd project ''a'' u1)) = 0"
  shows "snd (clone_loop e project
                (fetchable_remote_urls [(''a'', [(''fetch'', u1)]), (''b'', [(''fetch'', u2)])])) =
           Some (''b'', u2)
       \<and> (\<exists>evs. check_project a e (Some expected) project observed =
             emit evs
               (and_then
                  (sync_remotes a e project [(''a'', [(''fetch'', u1)]), (''b'', [(''fetch'', u2)])]
                     [(''b'', [(''fetch'', u2), (''push'', u2)])]
                     (dict_set project (Ok [(''b'', [(''fetch'', u2), (''push'', u2)])]) observed))
                  (post_checks a e project)))
       \<and> dict_get (fst (snd (check_project a e (Some expected) project observed))) project =
           Some (Ok (if set_urls a
                     then [(''b'', [(''fetch'', u2), (''push'', u2)]),
                           (''a'', [(''fetch'', u1), (''push'', u1)])]
                     else [(''b'', [(''fetch'', u2), (''push'', u2)])]))
       \<and> corrective (fst (check_project a e (Some expected) project observed)) =
           [Run (GitClone ''a'' u1 project), Run (GitClone ''b'' u2 project)]
           @ (if set_urls a then [Run (GitRemoteAdd project ''a'' u1)] else [])"
proof -
  let ?E = "[(''a'', [(''fetch'', u1)]), (''b'', [(''fetch'', u2)])]"
  let ?cloned = "[(''b'', [(''fetch'', u2), (''push'', u2)])]"
  let ?added = "[(''b'', [(''fetch'', u2), (''push'', u2)]), (''a'', [(''fetch'', u1), (''push'', u1)])]"
  let ?obs = "dict_set project (Ok ?cloned) observed"
  have cands: "fetchable_remote_urls ?E = [(''a'', u1), (''b'', u2)]"
    using assms(4,5) by (simp add: fetchable_remote_urls_def dict_get_def)
  have loop: "clone_loop e project [(''a'', u1), (''b'', u2)] =
      ([Run (GitClone ''a'' u1 project),
        Log WARNING [project, ''a''] (CloneFailed u1 (stderr (run e (GitClone ''a'' u1 project)))),
        Run (GitClone ''b'' u2 project),
        Log INFO [project, ''b''] (CloneComplete u2 (stderr (run e (GitClone ''b'' u2 project))))],
       Some (''b'', u2))"
    using assms(8,9) by (simp add: Let_def)
  have keys: "sorted_union ?E ?cloned = [''a'', ''b'']"
    by (simp add: sorted_union_def dict_keys_def)
  have modes: "sorted_union [(''fetch'', u)] [(''fetch'', u), (''push'', u)] = [''fetch'', ''push'']" for u :: string
    by (simp add: sorted_union_def dict_keys_def)
  have sm: "sync_modes a e project r [(''fetch'', u)] [(''fetch'', u), (''push'', u)] orm =
      ([Log DEBUG [project, r] RemoteExists, Log WARNING [project, r, ''push''] UnexpectedMode],
       dict_set r [(''fetch'', u), (''push'', u)] orm, None)" if "u \<noteq> []" for r u orm
    using that by (simp add: sync_modes_def modes sync_mode_def Let_def dict_get_def)
  have ra: "sync_remote a e project ?E ''a'' ?cloned =
      (if set_urls a
       then ([Log DEBUG [project, ''a''] RemoteSyncNeeded, Log INFO [project, ''a''] Adding,
              Run (GitRemoteAdd project ''a'' u1), Log DEBUG [project, ''a''] RemoteExists,
              Log WARNING [project, ''a'', ''push''] UnexpectedMode], ?added, None)
       else ([Log DEBUG [project, ''a''] RemoteSyncNeeded,
              Log WARNING [project, ''a''] SkippingSetUrls], ?cloned, None))"
    using assms(4,10)
    by (simp add: sync_remote_def Let_def dict_get_def dict_in_def dict_values_def sm)
  have rb: "sync_remote a e project ?E ''b'' orm =
      ([Log DEBUG [project, ''b''] RemoteSyncNeeded, Log DEBUG [project, ''b''] RemoteExists,
        Log WARNING [project, ''b'', ''push''] UnexpectedMode], orm, None)"
    if "orm = ?cloned \<or> orm = ?added" for orm
    using that assms(5)
    by (auto simp add: sync_remote_def Let_def dict_get_def dict_in_def sm
        mode_url_eq_def dict_eq_def dict_keys_def)
  have remotes: "sync_remotes a e project ?E ?cloned ?obs =
      (Log DEBUG [project] CloneExists
         # fst (sync_remote a e project ?E ''a'' ?cloned)
         @ [Log DEBUG [project, ''b''] RemoteSyncNeeded, Log DEBUG [project, ''b''] RemoteExists,
            Log WARNING [project, ''b'', ''push''] UnexpectedMode],
       dict_set project (Ok (if set_urls a then ?added else ?cloned)) ?obs, None)"
    by (simp add: sync_remotes_def keys ra rb)
  have differ: "\<not> query_eq (Some (Ok ?E)) (dict_get observed project)"
    using assms(6) by (simp add: dict_in_get query_eq_def)
  have body: "check_project a e (Some expected) project observed =
      emit ([Log DEBUG [project] ProjectPath, Log DEBUG [project] ProjectSyncNeeded,
             Log INFO [project] Cloning] @ fst (clone_loop e project [(''a'', u1), (''b'', u2)]))
        (and_then (sync_remotes a e project ?E ?cloned ?obs) (post_checks a e project))"
    using assms(1,2,3,6,7,8,9) differ dict_get_in[OF assms(7)]
    by (simp add: check_project_def the_expected_def Let_def cands dict_in_get emit_emit)
  have set_set: "dict_set project v (dict_set project w observed) = dict_set project v observed" for v w
    by (induction observed) auto
  have lf: "corrective (fst (clone_loop e project [(''a'', u1), (''b'', u2)])) =
      [Run (GitClone ''a'' u1 project), Run (GitClone ''b'' u2 project)]"
    by (simp only: loop fst_conv) simp
  have c1: "snd (clone_loop e project (fetchable_remote_urls ?E)) = Some (''b'', u2)"
    by (simp only: cands loop snd_conv)
  have c2: "\<exists>evs. check_project a e (Some expected) project observed =
      emit evs (and_then (sync_remotes a e project ?E ?cloned ?obs) (post_checks a e project))"
    using body by blast
  have c3: "dict_get (fst (snd (check_project a e (Some expected) project observed))) project =
      Some (Ok (if set_urls a then ?added else ?cloned))"
    by (simp add: body remotes set_set dict_get_set)
  have c4: "corrective (fst (check_project a e (Some expected) project observed)) =
      [Run (GitClone ''a'' u1 project), Run (GitClone ''b'' u2 project)]
      @ (if set_urls a then [Run (GitRemoteAdd project ''a'' u1)] else [])"
    by (simp add: body remotes ra lf del: clone_loop.simps)
  from c1 c2 c3 c4 show ?thesis by blast
qed


theorem clone_fallback_then_add_witness:
  "pattern example_args = Regex (\<lambda>name. True) \<and> clone example_args \<and> set_urls example_args
   \<and> \<not> dict_in ''p'' ([] :: topology)
   \<and> returncode (run (example_env [] []
         (\<lambda>c. if c = GitClone ''a'' ''u1'' ''p'' then fail else succeed))
         (GitClone ''a'' ''u1'' ''p'')) \<noteq> 0
   \<and> returncode (run (example_env [] []
         (\<lambda>c. if c = GitClone ''a'' ''u1'' ''p'' then fail else succeed))
         (GitClone ''b'' ''u2'' ''p'')) = 0
   \<and> dict_get (fst (snd (check_project example_args
         (example_env [] [] (\<lambda>c. if c = GitClone ''a'' ''u1'' ''p'' then fail else succeed))
         (Some [(''p'', Ok [(''a'', [(''fetch'', ''u1'')]), (''b'', [(''fetch'', ''u2'')])])])
         ''p'' []))) ''p'' =
       Some (Ok [(''b'', [(''fetch'', ''u2''), (''push'', ''u2'')]),
                 (''a'', [(''fetch'', ''u1''), (''push'', ''u1'')])])
   \<and> corrective (fst (check_project example_args
         (example_env [] [] (\<lambda>c. if c = GitClone ''a'' ''u1'' ''p'' then fail else succeed))
         (Some [(''p'', Ok [(''a'', [(''fetch'', ''u1'')]), (''b'', [(''fetch'', ''u2'')])])])
         ''p'' [])) =
       [Run (GitClone ''a'' ''u1'' ''p''), Run (GitClone ''b'' ''u2'' ''p''),
        Run (GitRemoteAdd ''p'' ''a'' ''u1'')]"
  using clone_fallback_then_add
    [of example_args "\<lambda>name. True" "''p''" "''u1''" "''u2''" "[]"
        "[(''p'', Ok [(''a'', [(''fetch'', ''u1'')]), (''b'', [(''fetch'', ''u2'')])])]"
        "example_env [] [] (\<lambda>c. if c = GitClone ''a'' ''u1'' ''p'' then fail else succeed)"]
  by (simp add: example_args_def example_env_def succeed_def fail_def dict_in_def dict_get_def)

subsection \<open>Events of a kind\<close>

lemma events_all_triple [simp]: "events_all P (evs, s, x) = list_all P evs"
  by (simp add: events_all_def)

lemma events_all_emit [simp]: "events_all P (emit xs r) = (list_all P xs \<and> events_all P r)"
  by (simp add: events_all_def)

lemma events_all_map_state [simp]: "events_all P (map_state f r) = events_all P r"
  by (cases r) simp

lemma events_all_and_then [simp]:
  "events_all P r \<Longrightarrow> (\<And>s. events_all P (f s)) \<Longrightarrow> events_all P (and_then r f)"
  by (cases r) (auto simp: and_then_def split: option.splits)

lemma events_all_for_each:
  "(\<And>k s. events_all P (body k s)) \<Longrightarrow> events_all P (for_each body ks s)"
  by (induction ks arbitrary: s) simp_all

lemma filter_none: "events_all (\<lambda>ev. \<not> P ev) r \<Longrightarrow> filter P (fst r) = []"
  by (simp add: events_all_def list_all_iff)

lemma no_clone_sync_mode:
  "events_all (\<lambda>ev. \<not> is_clone ev) (sync_mode a e project remote em mode om)"
  by (simp add: sync_mode_def Let_def split: option.splits)

lemma no_clone_sync_modes:
  "events_all (\<lambda>ev. \<not> is_clone ev) (sync_modes a e project remote em om orm)"
  by (simp add: sync_modes_def events_all_for_each no_clone_sync_mode)

lemma no_clone_sync_remote:
  "events_all (\<lambda>ev. \<not> is_clone ev) (sync_remote a e project er remote orm)"
  by (simp add: sync_remote_def Let_def no_clone_sync_modes split: option.splits list.splits)

lemma no_clone_sync_remotes:
  "events_all (\<lambda>ev. \<not> is_clone ev) (sync_remotes a e project er orm obs)"
  by (simp add: sync_remotes_def events_all_for_each no_clone_sync_remote)

lemma no_clone_post_checks:
  "events_all (\<lambda>ev. \<not> is_clone ev) (post_checks a e project obs)"
  by (simp add: post_checks_def fetch_all_def Let_def)

lemma clone_loop_attempted:
  "filter is_clone (fst (clone_loop e project candidates)) =
     map (\<lambda>(remote, url). Run (GitClone remote url project)) (attempted e project candidates)"
  by (induction candidates) (auto simp: Let_def split: prod.splits)

lemma fetchable_candidates: "fetchable_remote_urls rmu = clone_candidates rmu"
  by (induction rmu)
    (auto simp: fetchable_remote_urls_def clone_candidates_def has_fetch_url_def split: option.splits)

lemma to_create:
  assumes "pattern a = Regex search" and "search project" 
    and "\<not> dict_in project observed"
    and "dict_get expected project = Some (Ok E)"
  shows "check_project a e (Some expected) project observed =
    emit [Log DEBUG [project] ProjectPath, Log DEBUG [project] ProjectSyncNeeded]
     (if \<not> clone a then ([Log WARNING [project] SkippingClone], observed, None)
      else emit [Log INFO [project] Cloning]
        (case clone_loop e project (fetchable_remote_urls E) of
           (evs, None) \<Rightarrow> (evs, observed, None)
         | (evs, Some (remote, url)) \<Rightarrow>
             emit evs
               (and_then
                  (sync_remotes a e project E [(remote, [(''fetch'', url), (''push'', url)])]
                     (dict_set project (Ok [(remote, [(''fetch'', url), (''push'', url)])]) observed))
                  (post_checks a e project))))"
proof -
  have "\<not> query_eq (Some (Ok E)) (dict_get observed project)"
    using assms(3) by (simp add: dict_in_get query_eq_def)
  then show ?thesis
    using assms dict_get_in[OF assms(4)]
    by (simp add: check_project_def the_expected_def Let_def dict_in_get emit_emit
        del: clone_loop.simps)
qed

subsection \<open>Clone candidates\<close>

lemma clone_events_attempted:
  assumes "pattern a = Regex search" and "search project" and "clone a"
    and "\<not> dict_in project observed"
    and "dict_get expected project = Some (Ok E)"
  shows "filter is_clone (fst (check_project a e (Some expected) project observed)) =
           map (\<lambda>(remote, url). Run (GitClone remote url project))
             (attempted e project (clone_candidates E))"
proof -
  obtain evs r where cl: "clone_loop e project (fetchable_remote_urls E) = (evs, r)"
    by (cases "clone_loop e project (fetchable_remote_urls E)")
  have evs: "filter is_clone evs =
      map (\<lambda>(remote, url). Run (GitClone remote url project)) (attempted e project (clone_candidates E))"
    using clone_loop_attempted[of e project "fetchable_remote_urls E"]
    unfolding cl by (simp add: fetchable_candidates)
  have rest: "filter is_clone (fst (and_then (sync_remotes a e project E c obs) (post_checks a e project))) = []"
    for c obs
    by (rule filter_none) (simp add: no_clone_sync_remotes no_clone_post_checks)
  show ?thesis
    using assms(3) evs rest
    by (cases r) (auto simp add: to_create[OF assms(1,2,4,5)] cl)
qed


lemma attempted_Nil: "attempted e project cs = [] \<longleftrightarrow> cs = []"
  by (cases cs) auto

lemma candidates_Nil:
  "clone_candidates E = [] \<longleftrightarrow> \<not> list_ex (\<lambda>(remote, mode_url). has_fetch_url mode_url) E"
  by (auto simp: clone_candidates_def filter_empty_conv list_ex_iff)

lemma clone_loop_Nil: "clone_loop e project [] = ([Log ERROR [project] UnableToClone], None)"
  by simp

text \<open>
  Claim C3, as amended. For a project that must be created (it passes the filter, is in the
  expected document, is absent from observed, and \<^verbatim>\<open>--clone\<close> is given), the clone commands
  run are those of the expected remotes that have a non-empty fetch URL, taken in the order
  in which the expected dictionary lists them (the order of the document, not sorted), up to
  and including the first one that succeeds.
\<close>

theorem clone_candidates_in_document_order:
  assumes "pattern a = Regex search" and "search project" and "clone a"
    and "\<not> dict_in project observed"
    and "dict_get expected project = Some (Ok E)"
  shows "filter is_clone (fst (check_project a e (Some expected) project observed)) =
           map (\<lambda>(remote, url). Run (GitClone remote url project))
             (attempted e project (clone_candidates E))"
  using assms by (rule clone_events_attempted)

theorem clone_candidates_in_document_order_witness:
  "pattern example_args = Regex (\<lambda>name. True) \<and> clone example_args \<and> \<not> dict_in ''p'' ([] :: topology)
   \<and> filter is_clone (fst (check_project example_args
         (example_env [] [] (\<lambda>c. if c = GitClone ''c'' ''u3'' ''p'' then succeed else fail))
         (Some [(''p'', Ok [(''d'', [(''fetch'', ''u4'')]), (''b'', [(''push'', ''u2'')]),
                            (''c'', [(''fetch'', ''u3'')]), (''a'', [(''fetch'', ''u1'')])])])
         ''p'' [])) =
       [Run (GitClone ''d'' ''u4'' ''p''), Run (GitClone ''c'' ''u3'' ''p'')]"
  using clone_candidates_in_document_order
    [of example_args "\<lambda>name. True" "''p''" "[]"
        "[(''p'', Ok [(''d'', [(''fetch'', ''u4'')]), (''b'', [(''push'', ''u2'')]),
                      (''c'', [(''fetch'', ''u3'')]), (''a'', [(''fetch'', ''u1'')])])]"
        "[(''d'', [(''fetch'', ''u4'')]), (''b'', [(''push'', ''u2'')]),
          (''c'', [(''fetch'', ''u3'')]), (''a'', [(''fetch'', ''u1'')])]"
        "example_env [] [] (\<lambda>c. if c = GitClone ''c'' ''u3'' ''p'' then succeed else fail)"]
  by (simp add: example_args_def example_env_def succeed_def fail_def dict_in_def dict_get_def
      clone_candidates_def has_fetch_url_def)

text \<open>
  Claim C3 as stated fails: with the expected remotes listed as \<open>b\<close> then \<open>a\<close> and every
  clone failing, the clone from \<open>b\<close> is attempted before the clone from \<open>a\<close>, although \<open>a\<close>
  sorts before \<open>b\<close>.
\<close>

theorem clone_order_counterexample:
  "filter is_clone (fst (check_project example_args (example_env [] [] (\<lambda>c. fail))
      (Some [(''p'', Ok [(''b'', [(''fetch'', ''u2'')]), (''a'', [(''fetch'', ''u1'')])])])
      ''p'' [])) =
     [Run (GitClone ''b'' ''u2'' ''p''), Run (GitClone ''a'' ''u1'' ''p'')]
   \<and> sort [''b'', ''a''] = [''a'', ''b'']"
  by (simp add: check_project_def example_args_def example_env_def fail_def the_expected_def
      dict_get_def dict_in_def query_eq_def fetchable_remote_urls_def Let_def)

text \<open>
  Claim C5, as amended. For a project that passes the filter, is in the expected document and
  is absent from observed: a clone is attempted exactly when \<^verbatim>\<open>--clone\<close> is given and some
  expected remote has a non-empty fetch URL. Without \<^verbatim>\<open>--clone\<close> the project is skipped with a
  warning; with \<^verbatim>\<open>--clone\<close> but no candidate it is abandoned with the error
  \<^verbatim>\<open>unable to clone from expected remotes\<close>. In both cases no command is run for it and the
  observed topology is unchanged, so the project stays absent.
\<close>

theorem clone_iff_granted_and_fetchable:
  assumes "pattern a = Regex search" and "search project"
    and "\<not> dict_in project observed"
    and "dict_get expected project = Some (Ok E)"
  shows "(filter is_clone (fst (check_project a e (Some expected) project observed)) \<noteq> [] \<longleftrightarrow>
            clone a \<and> list_ex (\<lambda>(remote, mode_url). has_fetch_url mode_url) E)
       \<and> (\<not> clone a \<longrightarrow>
            check_project a e (Some expected) project observed =
              ([Log DEBUG [project] ProjectPath, Log DEBUG [project] ProjectSyncNeeded,
                Log WARNING [project] SkippingClone], observed, None))
       \<and> (clone a \<and> \<not> list_ex (\<lambda>(remote, mode_url). has_fetch_url mode_url) E \<longrightarrow>
            check_project a e (Some expected) project observed =
              ([Log DEBUG [project] ProjectPath, Log DEBUG [project] ProjectSyncNeeded,
                Log INFO [project] Cloning, Log ERROR [project] UnableToClone], observed, None))"
proof -
  note body = to_create[OF assms]
  have skipped: "\<not> clone a \<Longrightarrow> check_project a e (Some expected) project observed =
      ([Log DEBUG [project] ProjectPath, Log DEBUG [project] ProjectSyncNeeded,
        Log WARNING [project] SkippingClone], observed, None)"
    by (simp add: body)
  have unable: "check_project a e (Some expected) project observed =
      ([Log DEBUG [project] ProjectPath, Log DEBUG [project] ProjectSyncNeeded,
        Log INFO [project] Cloning, Log ERROR [project] UnableToClone], observed, None)"
    if "clone a" and "\<not> list_ex (\<lambda>(remote, mode_url). has_fetch_url mode_url) E"
  proof -
    from that(2) have "fetchable_remote_urls E = []"
      by (simp add: fetchable_candidates candidates_Nil)
    with that(1) show ?thesis by (simp add: body)
  qed
  have attempt: "filter is_clone (fst (check_project a e (Some expected) project observed)) \<noteq> [] \<longleftrightarrow>
      clone a \<and> list_ex (\<lambda>(remote, mode_url). has_fetch_url mode_url) E"
  proof (cases "clone a")
    case True
    then show ?thesis
      using clone_events_attempted[OF assms(1,2) True assms(3,4), of e]
      by (simp add: attempted_Nil candidates_Nil)
  next
    case False
    then show ?thesis by (simp add: skipped)
  qed
  from skipped unable attempt show ?thesis by blast
qed

theorem clone_iff_granted_and_fetchable_witness:
  "pattern example_args = Regex (\<lambda>name. True) \<and> \<not> dict_in ''p'' ([] :: topology)
   \<and> filter is_clone (fst (check_project example_args (example_env [] [] (\<lambda>c. succeed))
        (Some [(''p'', Ok [(''origin'', [(''fetch'', ''u'')])])]) ''p'' [])) \<noteq> []
   \<and> check_project (example_args\<lparr>clone := False\<rparr>) (example_env [] [] (\<lambda>c. succeed))
        (Some [(''p'', Ok [(''origin'', [(''fetch'', ''u'')])])]) ''p'' [] =
       ([Log DEBUG [''p''] ProjectPath, Log DEBUG [''p''] ProjectSyncNeeded,
         Log WARNING [''p''] SkippingClone], [], None)"
  using clone_iff_granted_and_fetchable
    [of example_args "\<lambda>name. True" "''p''" "[]"
        "[(''p'', Ok [(''origin'', [(''fetch'', ''u'')])])]" "[(''origin'', [(''fetch'', ''u'')])]"
        "example_env [] [] (\<lambda>c. succeed)"]
    clone_iff_granted_and_fetchable
    [of "example_args\<lparr>clone := False\<rparr>" "\<lambda>name. True" "''p''" "[]"
        "[(''p'', Ok [(''origin'', [(''fetch'', ''u'')])])]" "[(''origin'', [(''fetch'', ''u'')])]"
        "example_env [] [] (\<lambda>c. succeed)"]
  by (simp add: example_args_def dict_in_def dict_get_def has_fetch_url_def)

text \<open>
  Claim C5 as stated fails: with \<^verbatim>\<open>--clone\<close> given and no expected remote with a fetch URL, no
  clone is attempted and the project is abandoned, but no warning is logged: the record is at
  error level.
\<close>

theorem skipped_without_warning_counterexample:
  "check_project example_args (example_env [] [] (\<lambda>c. succeed))
      (Some [(''p'', Ok [(''origin'', [(''push'', ''u'')])])]) ''p'' [] =
     ([Log DEBUG [''p''] ProjectPath, Log DEBUG [''p''] ProjectSyncNeeded,
       Log INFO [''p''] Cloning, Log ERROR [''p''] UnableToClone], [], None)
   \<and> filter is_warning (fst (check_project example_args (example_env [] [] (\<lambda>c. succeed))
      (Some [(''p'', Ok [(''origin'', [(''push'', ''u'')])])]) ''p'' [])) = []"
  by (simp add: check_project_def example_args_def example_env_def the_expected_def
      dict_get_def dict_in_def query_eq_def fetchable_remote_urls_def Let_def)


subsection \<open>The exported document\<close>

lemma spec_document_loaded: "spec_document (map (\<lambda>(project, rmu). (project, Ok rmu)) doc) = doc"
  by (induction doc) (auto simp: spec_document_def)

lemma spec_document_observed:
  "map (\<lambda>(project, rmu). (project, Ok rmu)) (spec_document observed) = filter is_ok observed"
proof (induction observed)
  case Nil
  then show ?case by (simp add: spec_document_def)
next
  case (Cons pq observed)
  obtain p q where "pq = (p, q)" by (cases pq)
  with Cons show ?case by (cases q) (simp_all add: spec_document_def)
qed

lemma apply_sync_fields [simp]:
  "spec (apply_sync a) = spec a" "spec_create (apply_sync a) = spec_create a"
  "spec_create_overwrite (apply_sync a) = spec_create_overwrite a"
  "pattern (apply_sync a) = pattern a"
  by (simp_all add: apply_sync_def)

lemma write_spec_written:
  assumes "written (write_spec a e spec_doc evs observed) = Some (path, snapshot)"
  shows "spec_create a = Some path \<and> (spec_create_overwrite a \<or> \<not> file_exists e path)
     \<and> snapshot = spec_document (the_expected spec_doc observed)
     \<and> final_observed (write_spec a e spec_doc evs observed) = observed
     \<and> ending (write_spec a e spec_doc evs observed) = SystemExit 0"
  using assms by (auto simp: write_spec_def split: option.splits if_splits)

text \<open>
  Where a written document comes from. With \<^verbatim>\<open>--spec\<close> it is the loaded document, whatever was
  observed: the test on the type of the value excludes nothing there. Without \<^verbatim>\<open>--spec\<close>,
  \<^verbatim>\<open>expected\<close> is \<^verbatim>\<open>observed\<close>, and the document holds the projects whose query succeeded.
\<close>

lemma written_is_expected:
  assumes "written (main argv e) = Some (path, snapshot)"
  shows "spec_create argv = Some path
       \<and> (spec_create_overwrite argv \<or> \<not> file_exists e path)
       \<and> ending (main argv e) = SystemExit 0
       \<and> (case spec argv of
            Some spec_path \<Rightarrow> load_spec e spec_path = Inr snapshot
          | None \<Rightarrow> map (\<lambda>(project, rmu). (project, Ok rmu)) snapshot =
                     filter is_ok (final_observed (main argv e)))"
proof -
  define a where "a = apply_sync argv"
  from assms obtain names where names: "listdir e = Some names"
    by (cases "listdir e") (auto simp: main_def Let_def)
  define observed where
    "observed = foldl (\<lambda>d project. dict_set project (remote_mode_url e project) d) [] names"
  have sa [simp]: "spec a = spec argv" "spec_create a = spec_create argv"
    "spec_create_overwrite a = spec_create_overwrite argv"
    by (simp_all add: a_def)
  show ?thesis
  proof (cases "spec argv")
    case None
    obtain evs obs x where r: "check_projects a e None observed = (evs, obs, x)"
      by (cases "check_projects a e None observed")
    from assms names None r have x: "x = None"
      by (cases x) (auto simp: main_def Let_def a_def[symmetric] observed_def[symmetric])
    have m: "main argv e = write_spec a e None (map (\<lambda>project. Run (GitRemoteV project)) names @ evs) obs"
      using names None r x by (simp add: main_def Let_def a_def[symmetric] observed_def[symmetric])
    from write_spec_written[OF assms[unfolded m]] None show ?thesis
      by (simp add: m the_expected_def spec_document_observed)
  next
    case (Some spec_path)
    from assms names Some obtain doc where doc: "load_spec e spec_path = Inr doc"
      by (cases "load_spec e spec_path") (auto simp: main_def Let_def)
    let ?sd = "Some (map (\<lambda>(project, rmu). (project, Ok rmu)) doc)"
    obtain evs obs x where r: "check_projects a e ?sd observed = (evs, obs, x)"
      by (cases "check_projects a e ?sd observed")
    from assms names Some doc r have x: "x = None"
      by (cases x) (auto simp: main_def Let_def a_def[symmetric] observed_def[symmetric])
    have m: "main argv e = write_spec a e ?sd
        (map (\<lambda>project. Run (GitRemoteV project)) names @ [Log DEBUG [] (LoadingSpec spec_path)] @ evs) obs"
      using names Some doc r x by (simp add: main_def Let_def a_def[symmetric] observed_def[symmetric])
    from write_spec_written[OF assms[unfolded m]] Some doc show ?thesis
      by (simp add: m the_expected_def spec_document_loaded)
  qed
qed


lemma export_example:
  "main export_args export_env =
     \<lparr>events =
        [Run (GitRemoteV ''a''), Run (GitRemoteV ''b''), Log DEBUG [] (LoadingSpec ''spec.json''),
         Log DEBUG [''a''] ProjectPath, Log ERROR [''a''] (QueryStderr ''fatal''),
         Log DEBUG [''b''] ProjectPath, Log WARNING [''b''] UnexpectedProject,
         Log DEBUG [''b''] CheckingBranches, Run (GitShowRef ''b''),
         Log INFO [''b''] (LocalBranches []), Log DEBUG [''b''] CheckingStash,
         Run (GitStashList ''b''), Log DEBUG [''b''] CheckingUntracked,
         Run (GitLsFiles ''b''), Log INFO [] (WritingSpec ''out.json'')],
      final_observed = [(''a'', CalledProcessError ''fatal''), (''b'', Ok [])],
      written = Some (''out.json'', [(''a'', [(''origin'', [(''fetch'', ''u'')])])]),
      ending = SystemExit 0\<rparr>"
  by code_simp

text \<open>
  Claim C2: the exported document should hold every project, with its expected remotes when
  the project is in \<^verbatim>\<open>expected\<close> and its final observed remotes otherwise, and should leave
  out the projects whose query failed. The code departs from this when a document was loaded
  with \<^verbatim>\<open>--spec\<close>: the comprehension of lines 398-404 ranges over \<^verbatim>\<open>expected\<close> alone, and its
  test on the type of the value looks at the expected value, which is never a
  \<^verbatim>\<open>CalledProcessError\<close> there. At the input below the document holds only project \<open>a\<close>, the
  query of \<open>a\<close> fails, and project \<open>b\<close> exists, is queried successfully and is not in the
  document. The run ends with \<open>a\<close> observed as a failed query and \<open>b\<close> observed with no
  remotes, and it writes \<open>a\<close> and does not write \<open>b\<close>. The help of \<^verbatim>\<open>--spec-create\<close> (line 67)
  says that the document is written from what exists, so the written document departs from
  the program's own description as well.
\<close>

theorem export_counterexample:
  "final_observed (main export_args export_env) =
     [(''a'', CalledProcessError ''fatal''), (''b'', Ok [])]
   \<and> written (main export_args export_env) =
     Some (''out.json'', [(''a'', [(''origin'', [(''fetch'', ''u'')])])])"
  by (simp add: export_example)

subsection \<open>A failed add-remote or set-url ends the run\<close>

lemma failed_action_simps [simp]:
  "failed_action e (Log l p m) = False"
  "failed_action e (Run (GitRemoteAdd project remote url)) =
     (returncode (run e (GitRemoteAdd project remote url)) \<noteq> 0)"
  "failed_action e (Run (GitRemoteSetUrl project push remote url)) =
     (returncode (run e (GitRemoteSetUrl project push remote url)) \<noteq> 0)"
  "failed_action e (Run (GitClone remote url project)) = False"
  "failed_action e (Run (GitRemoteV project)) = False"
  "failed_action e (Run (GitFetch project)) = False"
  "failed_action e (Run (GitShowRef project)) = False"
  "failed_action e (Run (GitStashList project)) = False"
  "failed_action e (Run (GitLsFiles project)) = False"
  by (simp_all add: failed_action_def)

lemma fatal_last_quiet:
  "list_all (\<lambda>ev. \<not> failed_action e ev) evs \<Longrightarrow> fatal_last e (evs, s, x)"
  by (auto simp: fatal_last_def list_all_iff)

lemma fatal_last_triple:
  "fatal_last e (evs, s, x) =
     (\<forall>c. failed_action e (Run c) \<and> Run c \<in> set evs \<longrightarrow> x = Some (Uncaught c) \<and> last evs = Run c)"
  by (simp add: fatal_last_def)

lemma fatal_last_emit:
  "list_all (\<lambda>ev. \<not> failed_action e ev) xs \<Longrightarrow> fatal_last e r \<Longrightarrow> fatal_last e (emit xs r)"
  by (cases r) (auto simp: fatal_last_def list_all_iff last_append)

lemma fatal_last_map_state [simp]: "fatal_last e (map_state f r) = fatal_last e r"
  by (cases r) (simp add: fatal_last_def)

lemma fatal_last_and_then:
  assumes "fatal_last e r" and "\<And>s. fatal_last e (f s)"
  shows "fatal_last e (and_then r f)"
proof -
  obtain evs s x where r: "r = (evs, s, x)" by (cases r)
  show ?thesis
  proof (cases x)
    case (Some y)
    with r assms(1) show ?thesis by simp
  next
    case None
    with r assms(1) have "list_all (\<lambda>ev. \<not> failed_action e ev) evs"
      by (auto simp: fatal_last_def list_all_iff failed_action_def split: event.splits)
    with None r assms(2)[of s] show ?thesis
      by (simp add: fatal_last_emit)
  qed
qed

lemma fatal_last_for_each:
  "(\<And>k s. fatal_last e (body k s)) \<Longrightarrow> fatal_last e (for_each body ks s)"
  by (induction ks arbitrary: s) (simp_all add: fatal_last_quiet fatal_last_and_then)

lemma fatal_last_sync_mode: "fatal_last e (sync_mode a e project remote em mode om)"
  by (auto simp: sync_mode_def Let_def fatal_last_triple split: option.splits)

lemma fatal_last_sync_modes: "fatal_last e (sync_modes a e project remote em om orm)"
  by (simp add: sync_modes_def fatal_last_emit fatal_last_for_each fatal_last_sync_mode)

lemma fatal_last_sync_remote: "fatal_last e (sync_remote a e project er remote orm)"
  by (auto simp: sync_remote_def Let_def fatal_last_triple fatal_last_emit fatal_last_sync_modes
      split: option.splits list.splits)

lemma fatal_last_sync_remotes: "fatal_last e (sync_remotes a e project er orm obs)"
  by (simp add: sync_remotes_def fatal_last_emit fatal_last_for_each fatal_last_sync_remote)

lemma fatal_last_post_checks: "fatal_last e (post_checks a e project obs)"
  by (auto simp: post_checks_def fetch_all_def Let_def intro!: fatal_last_quiet)

lemma clone_loop_quiet: "list_all (\<lambda>ev. \<not> failed_action e ev) (fst (clone_loop e project cs))"
  by (induction cs) (auto simp: Let_def split: prod.splits)

lemma fatal_last_check_project: "fatal_last e (check_project a e spec_doc project observed)"
proof -
  have cl: "list_all (\<lambda>ev. \<not> failed_action e ev) evs" if "clone_loop e project cs = (evs, r)" for cs evs r
    using clone_loop_quiet[of e project cs] that by simp
  show ?thesis
    by (auto simp: check_project_def Let_def fatal_last_quiet fatal_last_emit cl
        fatal_last_and_then fatal_last_sync_remotes fatal_last_post_checks
        simp del: clone_loop.simps
        split: pattern.splits option.splits query.splits prod.splits)
qed

lemma fatal_last_check_projects: "fatal_last e (check_projects a e spec_doc observed)"
  by (simp add: check_projects_def fatal_last_for_each fatal_last_check_project)


lemma write_spec_events:
  "\<exists>logs. events (write_spec a e spec_doc evs observed) = evs @ logs
     \<and> list_all (\<lambda>ev. \<not> failed_action e' ev) logs"
  by (auto simp: write_spec_def split: option.splits)

text \<open>
  Claim C1, as amended. The add-remote and set-url commands are run with \<^verbatim>\<open>check=True\<close> and
  nothing catches the \<^verbatim>\<open>CalledProcessError\<close>: when such a command of a run fails, it is the
  last event of the run, the run ends with that exception, and no document is written. No
  sibling mode, sibling remote or later project is processed after it.
\<close>

theorem failed_action_ends_run:
  assumes "Run c \<in> set (events (main argv e))" and "is_checked_action c"
    and "returncode (run e c) \<noteq> 0"
  shows "ending (main argv e) = Uncaught c \<and> last (events (main argv e)) = Run c
       \<and> written (main argv e) = None"
proof -
  define a where "a = apply_sync argv"
  have failed: "failed_action e (Run c)"
    using assms(2,3) by (simp add: failed_action_def)
  from assms(1) obtain names where names: "listdir e = Some names"
    by (cases "listdir e") (auto simp: main_def Let_def)
  define observed where
    "observed = foldl (\<lambda>d project. dict_set project (remote_mode_url e project) d) [] names"
  define queries where "queries = map (\<lambda>project. Run (GitRemoteV project)) names"
  have sa [simp]: "spec a = spec argv" by (simp add: a_def)
  have q: "list_all (\<lambda>ev. \<not> failed_action e ev) queries"
    by (simp add: queries_def list_all_iff image_iff) 
  have run: "ending (main argv e) = Uncaught c \<and> last (events (main argv e)) = Run c
       \<and> written (main argv e) = None"
    if m: "main argv e = (case check_projects a e sd observed of
            (evs, observed', Some x) \<Rightarrow>
              \<lparr>events = queries @ loading @ evs, final_observed = observed', written = None, ending = x\<rparr>
          | (evs, observed', None) \<Rightarrow> write_spec a e sd (queries @ loading @ evs) observed')"
      and l: "list_all (\<lambda>ev. \<not> failed_action e ev) loading"
    for sd loading
  proof -
    obtain evs obs x where r: "check_projects a e sd observed = (evs, obs, x)"
      by (cases "check_projects a e sd observed")
    have fl: "fatal_last e (evs, obs, x)"
      using fatal_last_check_projects[of e a sd observed] by (simp add: r)
    obtain logs where logs: "events (write_spec a e sd (queries @ loading @ evs) obs) =
        (queries @ loading @ evs) @ logs" "list_all (\<lambda>ev. \<not> failed_action e ev) logs"
      using write_spec_events[of a e sd "queries @ loading @ evs" obs e] by blast
    have "Run c \<in> set evs"
      using assms(1) failed q l logs r by (cases x) (auto simp: m list_all_iff)
    with fl failed have x: "x = Some (Uncaught c)" and "last evs = Run c"
      by (auto simp: fatal_last_triple)
    with \<open>Run c \<in> set evs\<close> show ?thesis
      by (auto simp: m r last_append)
  qed
  show ?thesis
  proof (cases "spec argv")
    case None
    show ?thesis
      by (rule run[of None "[]"])
        (simp_all add: main_def Let_def names None a_def[symmetric] observed_def[symmetric]
          queries_def[symmetric] del: sa, simp add: None)
  next
    case (Some spec_path)
    from assms(1,2) names Some obtain doc where doc: "load_spec e spec_path = Inr doc"
      by (cases "load_spec e spec_path") (auto simp: main_def Let_def image_iff)
    show ?thesis
      by (rule run[of "Some (map (\<lambda>(project, rmu). (project, Ok rmu)) doc)"
            "[Log DEBUG [] (LoadingSpec spec_path)]"])
        (simp_all add: main_def Let_def names Some doc a_def[symmetric] observed_def[symmetric]
          queries_def[symmetric])
  qed
qed

lemma abort_example:
  "main export_args abort_env =
     \<lparr>events =
        [Run (GitRemoteV ''p''), Run (GitRemoteV ''q''), Log DEBUG [] (LoadingSpec ''spec.json''),
         Log DEBUG [''p''] ProjectPath, Log DEBUG [''p''] ProjectSyncNeeded,
         Log DEBUG [''p''] CloneExists, Log DEBUG [''p'', ''origin''] RemoteSyncNeeded,
         Log INFO [''p'', ''origin''] Adding, Run (GitRemoteAdd ''p'' ''origin'' ''u'')],
      final_observed = [(''p'', Ok []), (''q'', Ok [])], written = None,
      ending = Uncaught (GitRemoteAdd ''p'' ''origin'' ''u'')\<rparr>"
  by code_simp

theorem failed_action_ends_run_witness:
  "Run (GitRemoteAdd ''p'' ''origin'' ''u'') \<in> set (events (main export_args abort_env))
   \<and> is_checked_action (GitRemoteAdd ''p'' ''origin'' ''u'')
   \<and> returncode (run abort_env (GitRemoteAdd ''p'' ''origin'' ''u'')) \<noteq> 0
   \<and> ending (main export_args abort_env) = Uncaught (GitRemoteAdd ''p'' ''origin'' ''u'')
   \<and> last (events (main export_args abort_env)) = Run (GitRemoteAdd ''p'' ''origin'' ''u'')
   \<and> written (main export_args abort_env) = None"
  using failed_action_ends_run[of "GitRemoteAdd ''p'' ''origin'' ''u''" export_args abort_env]
  by (simp add: abort_example) (simp add: abort_env_def example_env_def fail_def)

text \<open>
  Claim C1 as stated fails: with projects \<open>p\<close> and \<open>q\<close> both expected to have a remote they
  lack, and the add-remote for \<open>p\<close> failing, the run ends with the uncaught error of that
  command; nothing is logged after it and project \<open>q\<close>, which comes later, is never processed
  (its remote is still missing).
\<close>

theorem failed_add_remote_counterexample:
  "returncode (run abort_env (GitRemoteAdd ''p'' ''origin'' ''u'')) \<noteq> 0
   \<and> ending (main export_args abort_env) = Uncaught (GitRemoteAdd ''p'' ''origin'' ''u'')
   \<and> events (main export_args abort_env) =
       [Run (GitRemoteV ''p''), Run (GitRemoteV ''q''), Log DEBUG [] (LoadingSpec ''spec.json''),
        Log DEBUG [''p''] ProjectPath, Log DEBUG [''p''] ProjectSyncNeeded,
        Log DEBUG [''p''] CloneExists, Log DEBUG [''p'', ''origin''] RemoteSyncNeeded,
        Log INFO [''p'', ''origin''] Adding, Run (GitRemoteAdd ''p'' ''origin'' ''u'')]
   \<and> dict_get (final_observed (main export_args abort_env)) ''q'' = Some (Ok [])
   \<and> dict_get [(''p'', [(''origin'', [(''fetch'', ''u'')])]), (''q'', [(''origin'', [(''fetch'', ''v'')])])] ''q''
       = Some [(''origin'', [(''fetch'', ''v'')])]"
  by (simp add: abort_example) (simp add: abort_env_def example_env_def fail_def dict_get_def)


subsection \<open>Idempotence\<close>

text \<open>
  Loops over distinct keys: what a finished loop establishes for each key, what another key's
  iteration preserves, and a loop all of whose iterations change nothing.
\<close>

lemma for_each_Cons_None:
  assumes "for_each body (k # ks) s = (evs, s', None)"
  obtains evs1 s1 evs2 where "body k s = (evs1, s1, None)"
    and "for_each body ks s1 = (evs2, s', None)" and "evs = evs1 @ evs2"
proof -
  obtain evs1 s1 x where b: "body k s = (evs1, s1, x)" by (cases "body k s")
  with assms have x: "x = None" by (cases x) auto
  obtain evs2 s2 y where f: "for_each body ks s1 = (evs2, s2, y)" by (cases "for_each body ks s1")
  from assms b x f have "evs = evs1 @ evs2" "s2 = s'" "y = None" by auto
  with b x f that show ?thesis by blast
qed

lemma for_each_frame:
  assumes frame: "\<And>k s evs s' x. k \<noteq> k' \<Longrightarrow> body k s = (evs, s', x) \<Longrightarrow> Q s \<Longrightarrow> Q s'"
    and "k' \<notin> set ks" and "Q s"
  shows "Q (fst (snd (for_each body ks s)))"
  using assms(2,3)
proof (induction ks arbitrary: s)
  case Nil
  then show ?case by simp
next
  case (Cons k ks)
  obtain evs1 s1 x where b: "body k s = (evs1, s1, x)" by (cases "body k s")
  with Cons.prems frame[of k s evs1 s1 x] have q1: "Q s1" by auto
  show ?case
  proof (cases x)
    case None
    with b Cons.IH[OF _ q1] Cons.prems(1) show ?thesis
      by (cases "for_each body ks s1") auto
  next
    case (Some y)
    with b q1 show ?thesis by simp
  qed
qed

lemma for_each_establishes:
  assumes est: "\<And>k s evs s'. body k s = (evs, s', None) \<Longrightarrow> ok evs \<Longrightarrow> Q k s'"
    and frame: "\<And>k k' s evs s' x. k \<noteq> k' \<Longrightarrow> body k s = (evs, s', x) \<Longrightarrow> Q k' s \<Longrightarrow> Q k' s'"
    and okapp: "\<And>xs ys. ok (xs @ ys) \<Longrightarrow> ok xs \<and> ok ys"
    and "distinct ks" and "for_each body ks s = (evs, s', None)" and "ok evs"
  shows "\<forall>k \<in> set ks. Q k s'"
  using assms(4,5,6)
proof (induction ks arbitrary: s evs)
  case Nil
  then show ?case by simp
next
  case (Cons k ks)
  from Cons.prems(2) obtain evs1 s1 evs2 where b: "body k s = (evs1, s1, None)"
    and f: "for_each body ks s1 = (evs2, s', None)" and e: "evs = evs1 @ evs2"
    by (rule for_each_Cons_None)
  from Cons.prems(3) e okapp have ok1: "ok evs1" and ok2: "ok evs2" by blast+
  from est[OF b ok1] have "Q k s1" .
  moreover from Cons.prems(1) have "k \<notin> set ks" by simp
  ultimately have "Q k (fst (snd (for_each body ks s1)))"
    using for_each_frame[of k body "Q k" ks s1] frame by blast
  with f have "Q k s'" by simp
  moreover from Cons.IH[OF _ f ok2] Cons.prems(1) have "\<forall>k' \<in> set ks. Q k' s'" by simp
  ultimately show ?case by simp
qed

lemma for_each_noop:
  assumes "\<And>k. k \<in> set ks \<Longrightarrow> corrective (fst (body k s)) = [] \<and> fst (snd (body k s)) = s"
  shows "corrective (fst (for_each body ks s)) = [] \<and> fst (snd (for_each body ks s)) = s"
  using assms
proof (induction ks)
  case Nil
  then show ?case by simp
next
  case (Cons k ks)
  obtain evs1 s1 x where b: "body k s = (evs1, s1, x)" by (cases "body k s")
  with Cons.prems[of k] have c: "corrective evs1 = []" "s1 = s" by auto
  show ?case
  proof (cases x)
    case None
    with b c Cons.IH Cons.prems show ?thesis
      by (cases "for_each body ks s") auto
  next
    case (Some y)
    with b c show ?thesis by simp
  qed
qed


lemma dict_set_same: "dict_get d k = Some v \<Longrightarrow> dict_set k v d = d"
  by (induction d) (auto simp: dict_get_def split: if_splits)

lemma dict_get_None_keys: "k \<notin> set (dict_keys d) \<Longrightarrow> dict_get d k = None"
  by (simp add: dict_get_def dict_keys_def map_of_eq_None_iff)

lemma set_sorted_union [simp]: "set (sorted_union a b) = set (dict_keys a) \<union> set (dict_keys b)"
  by (simp add: sorted_union_def)

lemma distinct_sorted_union [simp]: "distinct (sorted_union a b)"
  by (simp add: sorted_union_def)

lemma mode_settled_outside: "m \<notin> set (dict_keys E) \<Longrightarrow> mode_settled a E m obs"
  by (simp add: mode_settled_def dict_get_None_keys)

lemma mode_est:
  "sync_mode a e p r E m obs = (evs, obs', None) \<Longrightarrow> mode_settled a E m obs'"
  by (auto simp: sync_mode_def mode_settled_def Let_def dict_get_set split: option.splits if_splits)

lemma mode_frame:
  "m \<noteq> m' \<Longrightarrow> sync_mode a e p r E m obs = (evs, obs', x) \<Longrightarrow>
     mode_settled a E m' obs \<Longrightarrow> mode_settled a E m' obs'"
  by (auto simp: sync_mode_def mode_settled_def Let_def dict_get_set split: option.splits if_splits)

lemma mode_noop:
  "mode_settled a E m obs \<Longrightarrow>
     corrective (fst (sync_mode a e p r E m obs)) = [] \<and> fst (snd (sync_mode a e p r E m obs)) = obs"
  by (auto simp: sync_mode_def mode_settled_def Let_def split: option.splits)

lemma modes_est:
  assumes "for_each (sync_mode a e p r E) (sorted_union E obs0) obs0 = (evs, obs', None)"
  shows "mode_settled a E m obs'"
proof (cases "m \<in> set (sorted_union E obs0)")
  case True
  have "\<forall>k \<in> set (sorted_union E obs0). mode_settled a E k obs'"
    by (rule for_each_establishes[where ok = "\<lambda>evs. True" and body = "sync_mode a e p r E",
          OF _ _ _ distinct_sorted_union assms])
       (auto intro: mode_est mode_frame)
  with True show ?thesis by blast
next
  case False
  then show ?thesis by (simp add: mode_settled_outside)
qed

lemma sync_modes_result:
  obtains evs obs' x where "sync_modes a e p r E obs0 R = (evs, dict_set r obs' R, x)"
    and "x = None \<longrightarrow> (\<forall>m. mode_settled a E m obs')"
proof -
  obtain evs obs' x where f: "for_each (sync_mode a e p r E) (sorted_union E obs0) obs0 = (evs, obs', x)"
    by (cases "for_each (sync_mode a e p r E) (sorted_union E obs0) obs0")
  then have "sync_modes a e p r E obs0 R =
      (Log DEBUG [p, r] RemoteExists # evs, dict_set r obs' R, x)"
    by (simp add: sync_modes_def)
  moreover have "x = None \<longrightarrow> (\<forall>m. mode_settled a E m obs')"
    using f modes_est by blast
  ultimately show ?thesis using that by blast
qed

lemma sync_modes_noop:
  assumes "dict_get R r = Some obs" and "\<forall>m. mode_settled a E m obs"
  shows "corrective (fst (sync_modes a e p r E obs R)) = [] \<and> fst (snd (sync_modes a e p r E obs R)) = R"
proof -
  have "corrective (fst (for_each (sync_mode a e p r E) (sorted_union E obs) obs)) = []
      \<and> fst (snd (for_each (sync_mode a e p r E) (sorted_union E obs) obs)) = obs"
    by (rule for_each_noop) (simp add: mode_noop assms(2))
  then show ?thesis
    by (cases "for_each (sync_mode a e p r E) (sorted_union E obs) obs")
       (simp add: sync_modes_def dict_set_same[OF assms(1)])
qed

lemma mode_url_eq_settled: "mode_url_eq E obs \<Longrightarrow> mode_settled a E m obs"
  using dict_eq_get[of E obs m] by (auto simp: mode_settled_def mode_url_eq_def split: option.splits)

lemma remote_settled_outside: "r \<notin> set (dict_keys E) \<Longrightarrow> remote_settled a E r obs"
  by (simp add: remote_settled_def dict_get_None_keys)

lemma dict_values_Nil: "dict_values d = [] \<longleftrightarrow> d = []"
  by (simp add: dict_values_def)

lemma remote_est:
  assumes "sync_remote a e p E r R = (evs, R', None)"
  shows "remote_settled a E r R'"
proof (cases "dict_get E r")
  case None
  then show ?thesis by (simp add: remote_settled_def)
next
  case (Some modes)
  show ?thesis
  proof (cases "modes = []")
    case True
    with Some show ?thesis by (simp add: remote_settled_def)
  next
    case False
    then obtain url rest where vals: "dict_values modes = url # rest"
      by (cases "dict_values modes") (auto simp: dict_values_Nil)
    show ?thesis
    proof (cases "dict_get R r")
      case None
      then have notin: "\<not> dict_in r R" by (simp add: dict_in_get)
      show ?thesis
      proof (cases "set_urls a")
        case False
        with assms Some \<open>modes \<noteq> []\<close> None notin show ?thesis
          by (auto simp: sync_remote_def Let_def remote_settled_def)
      next
        case True
        let ?added = "[(''fetch'', url), (''push'', url)]"
        obtain evs2 obs' x where m: "sync_modes a e p r modes ?added (dict_set r ?added R) =
            (evs2, dict_set r obs' (dict_set r ?added R), x)"
          and settled: "x = None \<longrightarrow> (\<forall>m. mode_settled a modes m obs')"
          by (rule sync_modes_result)
        from assms Some \<open>modes \<noteq> []\<close> None notin True vals m
        have "x = None" and "R' = dict_set r obs' (dict_set r ?added R)"
          by (auto simp: sync_remote_def Let_def split: if_splits)
        with settled Some \<open>modes \<noteq> []\<close> show ?thesis
          by (simp add: remote_settled_def dict_get_set)
      qed
    next
      case (Some obs)
      then have isin: "dict_in r R" by (simp add: dict_in_get)
      show ?thesis
      proof (cases "mode_url_eq modes obs")
        case True
        with assms \<open>dict_get E r = Some modes\<close> \<open>modes \<noteq> []\<close> Some show ?thesis
          by (auto simp: sync_remote_def Let_def remote_settled_def mode_url_eq_settled)
      next
        case False
        obtain evs2 obs' x where m: "sync_modes a e p r modes obs R = (evs2, dict_set r obs' R, x)"
          and settled: "x = None \<longrightarrow> (\<forall>m. mode_settled a modes m obs')"
          by (rule sync_modes_result)
        from assms \<open>dict_get E r = Some modes\<close> \<open>modes \<noteq> []\<close> Some isin False m
        have "x = None" and "R' = dict_set r obs' R"
          by (auto simp: sync_remote_def Let_def)
        with settled \<open>dict_get E r = Some modes\<close> \<open>modes \<noteq> []\<close> show ?thesis
          by (simp add: remote_settled_def dict_get_set)
      qed
    qed
  qed
qed


lemma sync_modes_other:
  "r' \<noteq> r \<Longrightarrow> dict_get (fst (snd (sync_modes a e p r E obs0 R))) r' = dict_get R r'"
  by (rule sync_modes_result[of a e p r E obs0 R]) (simp add: dict_get_set)

lemma remote_other:
  "r' \<noteq> r \<Longrightarrow> dict_get (fst (snd (sync_remote a e p E r R))) r' = dict_get R r'"
  using sync_modes_other[of r' r a e p]
  by (auto simp: sync_remote_def Let_def dict_get_set split: option.splits list.splits)

lemma remote_frame:
  assumes "r \<noteq> r'" and "sync_remote a e p E r R = (evs, R', x)" and "remote_settled a E r' R"
  shows "remote_settled a E r' R'"
proof -
  from remote_other[of r' r a e p E R] assms(1,2) have "dict_get R' r' = dict_get R r'" by simp
  with assms(3) show ?thesis by (auto simp: remote_settled_def split: option.splits)
qed

lemma remote_noop:
  assumes "remote_settled a E r R"
  shows "corrective (fst (sync_remote a e p E r R)) = [] \<and> fst (snd (sync_remote a e p E r R)) = R"
  using assms sync_modes_noop[of R r _ a _ e p]
  by (auto simp: sync_remote_def remote_settled_def Let_def dict_in_get split: option.splits)

lemma remotes_est:
  assumes "for_each (sync_remote a e p E) (sorted_union E R0) R0 = (evs, R', None)"
  shows "remote_settled a E r R'"
proof (cases "r \<in> set (sorted_union E R0)")
  case True
  have "\<forall>k \<in> set (sorted_union E R0). remote_settled a E k R'"
    by (rule for_each_establishes[where ok = "\<lambda>evs. True" and body = "sync_remote a e p E",
          OF _ _ _ distinct_sorted_union assms])
       (auto intro: remote_est remote_frame)
  with True show ?thesis by blast
next
  case False
  then show ?thesis by (simp add: remote_settled_outside)
qed

lemma sync_remotes_result:
  obtains evs R' x where "sync_remotes a e p E R0 S = (evs, dict_set p (Ok R') S, x)"
    and "x = None \<longrightarrow> (\<forall>r. remote_settled a E r R')"
proof -
  obtain evs R' x where f: "for_each (sync_remote a e p E) (sorted_union E R0) R0 = (evs, R', x)"
    by (cases "for_each (sync_remote a e p E) (sorted_union E R0) R0")
  then have "sync_remotes a e p E R0 S = (Log DEBUG [p] CloneExists # evs, dict_set p (Ok R') S, x)"
    by (simp add: sync_remotes_def)
  moreover have "x = None \<longrightarrow> (\<forall>r. remote_settled a E r R')"
    using f remotes_est by blast
  ultimately show ?thesis using that by blast
qed

lemma sync_remotes_noop:
  assumes "dict_get S p = Some (Ok R)" and "\<forall>r. remote_settled a E r R"
  shows "corrective (fst (sync_remotes a e p E R S)) = [] \<and> fst (snd (sync_remotes a e p E R S)) = S"
proof -
  have "corrective (fst (for_each (sync_remote a e p E) (sorted_union E R) R)) = []
      \<and> fst (snd (for_each (sync_remote a e p E) (sorted_union E R) R)) = R"
    by (rule for_each_noop) (simp add: remote_noop assms(2))
  then show ?thesis
    by (cases "for_each (sync_remote a e p E) (sorted_union E R) R")
       (simp add: sync_remotes_def dict_set_same[OF assms(1)])
qed

lemma and_then_noop:
  assumes "corrective (fst r) = [] \<and> fst (snd r) = s"
    and "corrective (fst (f s)) = [] \<and> fst (snd (f s)) = s"
  shows "corrective (fst (and_then r f)) = [] \<and> fst (snd (and_then r f)) = s"
proof -
  obtain evs s1 x where r: "r = (evs, s1, x)" by (cases r)
  with assms show ?thesis by (cases x) auto
qed

lemma dict_eq_refl: "(\<And>x. veq x x) \<Longrightarrow> dict_eq veq d d"
proof -
  assume refl: "\<And>x. veq x x"
  have "dict_get d k \<noteq> None" if "k \<in> set (dict_keys d)" for k
    using that by (simp add: dict_get_def dict_keys_def map_of_eq_None_iff)
  with refl show ?thesis
    by (auto simp: dict_eq_def list_all_iff split: option.splits)
qed

lemma query_eq_refl: "query_eq x x"
proof (cases x)
  case None
  then show ?thesis by (simp add: query_eq_def)
next
  case (Some q)
  then show ?thesis
    by (cases q) (simp_all add: query_eq_def remote_mode_url_eq_def mode_url_eq_def dict_eq_refl)
qed

lemma project_noop:
  assumes "project_settled a spec_doc p S"
  shows "corrective (fst (check_project a e spec_doc p S)) = []
       \<and> fst (snd (check_project a e spec_doc p S)) = S"
proof (cases "pattern a")
  case InvalidRegex
  then show ?thesis by (simp add: check_project_def)
next
  case (Regex search)
  show ?thesis
  proof (cases "search p")
    case False
    with Regex show ?thesis by (simp add: check_project_def)
  next
    case True
    have checks: "corrective (fst (post_checks a e p S)) = [] \<and> fst (snd (post_checks a e p S)) = S"
      by simp
    show ?thesis
    proof (cases spec_doc)
      case None
      with Regex True checks show ?thesis
        by (auto simp: check_project_def the_expected_def Let_def query_eq_refl
            split: option.splits query.splits)
    next
      case (Some expected)
      have synced: "corrective (fst (and_then (sync_remotes a e p E R S) (post_checks a e p))) = []
          \<and> fst (snd (and_then (sync_remotes a e p E R S) (post_checks a e p))) = S"
        if "dict_get S p = Some (Ok R)" and "\<forall>r. remote_settled a E r R" for E R
        by (rule and_then_noop) (simp_all add: sync_remotes_noop[OF that])
      from assms Regex True Some checks synced show ?thesis
        by (auto simp: check_project_def project_settled_def the_expected_def Let_def dict_in_get
            simp del: clone_loop.simps(2)
            split: option.splits query.splits)
    qed
  qed
qed


lemma and_then_None:
  assumes "and_then r f = (evs, s', None)"
  obtains evs1 s1 evs2 where "r = (evs1, s1, None)" and "f s1 = (evs2, s', None)"
    and "evs = evs1 @ evs2"
proof -
  obtain evs1 s1 x where r: "r = (evs1, s1, x)" by (cases r)
  with assms have x: "x = None" by (cases x) auto
  obtain evs2 s2 y where f: "f s1 = (evs2, s2, y)" by (cases "f s1")
  from assms r x f have "evs = evs1 @ evs2" "s2 = s'" "y = None" by auto
  with r x f that show ?thesis by blast
qed

lemma and_then_post_checks_state:
  "fst (snd (and_then r (post_checks a e p))) = fst (snd r)"
proof -
  obtain evs s x where "r = (evs, s, x)" by (cases r)
  then show ?thesis by (cases x) auto
qed

lemma dict_eq_get_rel:
  assumes "dict_eq veq a b" and "dict_get a k = Some x"
  obtains y where "dict_get b k = Some y" and "veq x y"
proof -
  from assms(2) have "k \<in> set (dict_keys a)"
    by (metis dict_in_def dict_in_get dict_keys_def option.distinct(1))
  with assms that show ?thesis
    by (auto simp: dict_eq_def list_all_iff split: option.splits)
qed

lemma remote_mode_url_eq_settled:
  assumes "remote_mode_url_eq E R"
  shows "remote_settled a E r R"
proof (cases "dict_get E r")
  case None
  then show ?thesis by (simp add: remote_settled_def)
next
  case (Some modes)
  with assms obtain obs where "dict_get R r = Some obs" and "mode_url_eq modes obs"
    unfolding remote_mode_url_eq_def by (rule dict_eq_get_rel)
  with Some show ?thesis
    by (simp add: remote_settled_def mode_url_eq_settled)
qed

lemma clone_loop_failed:
  "clone_loop e p cs = (evs, None) \<Longrightarrow> cs \<noteq> [] \<Longrightarrow> \<not> list_all (succeeded e) (corrective evs)"
  by (cases cs) (auto simp: Let_def split: prod.splits if_splits)

lemma synced_settled:
  assumes "and_then (sync_remotes a e p E R0 S0) (post_checks a e p) = (evs, S', None)"
  shows "\<exists>R'. dict_get S' p = Some (Ok R') \<and> (\<forall>r. remote_settled a E r R')"
proof -
  from assms obtain evs1 S1 evs2 where sr: "sync_remotes a e p E R0 S0 = (evs1, S1, None)"
    and pc: "post_checks a e p S1 = (evs2, S', None)"
    by (rule and_then_None)
  obtain evs3 R' x where sr': "sync_remotes a e p E R0 S0 = (evs3, dict_set p (Ok R') S0, x)"
    and settled: "x = None \<longrightarrow> (\<forall>r. remote_settled a E r R')"
    by (rule sync_remotes_result)
  from sr sr' have "S1 = dict_set p (Ok R') S0" "x = None" by simp_all
  moreover from pc post_checks_state[of a e p S1] have "S' = S1" by simp
  ultimately show ?thesis using settled by (auto simp: dict_get_set)
qed

lemma project_est:
  assumes "check_project a e spec_doc p S = (evs, S', None)"
    and "list_all (succeeded e) (corrective evs)"
  shows "project_settled a spec_doc p S'"
proof (cases "pattern a")
  case InvalidRegex
  then show ?thesis by (simp add: project_settled_def)
next
  case (Regex search)
  show ?thesis
  proof (cases "search p \<and> spec_doc \<noteq> None")
    case False
    with Regex show ?thesis by (auto simp: project_settled_def)
  next
    case True
    then obtain expected where sd: "spec_doc = Some expected" and sp: "search p" by auto
    show ?thesis
    proof (cases "dict_get expected p")
      case None
      with Regex sd show ?thesis by (simp add: project_settled_def)
    next
      case (Some q)
      show ?thesis
      proof (cases q)
        case (CalledProcessError err)
        with Regex sd Some show ?thesis by (simp add: project_settled_def)
      next
        case (Ok E)
        have goal: "project_settled a spec_doc p S' \<longleftrightarrow>
            (case dict_get S' p of
               None \<Rightarrow> \<not> clone a \<or> fetchable_remote_urls E = []
             | Some (Ok R) \<Rightarrow> \<forall>r. remote_settled a E r R
             | Some (CalledProcessError err) \<Rightarrow> True)"
          using Regex sd sp Some Ok by (simp add: project_settled_def)
        have isin: "dict_in p expected"
          using Some by (simp add: dict_in_get)
        show ?thesis
        proof (cases "dict_get S p")
          case None
          then have notin: "\<not> dict_in p S" by (simp add: dict_in_get)
          note body = to_create[OF Regex sp notin Some[unfolded Ok], of e]
          show ?thesis
          proof (cases "clone a")
            case False
            with assms(1) body sd have "S' = S" by simp
            with goal None False show ?thesis by simp
          next
            case True
            obtain cevs res where cl: "clone_loop e p (fetchable_remote_urls E) = (cevs, res)"
              by (cases "clone_loop e p (fetchable_remote_urls E)")
            show ?thesis
            proof (cases res)
              case None
              with assms(1) body sd True cl have s: "S' = S"
                and evs: "evs = [Log DEBUG [p] ProjectPath, Log DEBUG [p] ProjectSyncNeeded,
                                 Log INFO [p] Cloning] @ cevs"
                by simp_all
              from assms(2) evs have "list_all (succeeded e) (corrective cevs)" by simp
              with clone_loop_failed[OF cl[unfolded None]] have "fetchable_remote_urls E = []"
                by blast
              with goal s \<open>dict_get S p = None\<close> show ?thesis by simp
            next
              case (Some ru)
              obtain r u where ru: "ru = (r, u)" by (cases ru)
              let ?c = "[(r, [(''fetch'', u), (''push'', u)])]"
              from assms(1) body sd True cl Some ru
              obtain evs' where "and_then (sync_remotes a e p E ?c (dict_set p (Ok ?c) S))
                  (post_checks a e p) = (evs', S', None)"
                by (cases "and_then (sync_remotes a e p E ?c (dict_set p (Ok ?c) S))
                  (post_checks a e p)") auto
              from synced_settled[OF this] goal show ?thesis by auto
            qed
          qed
        next
          case (Some oq)
          then have obsin: "dict_in p S" by (simp add: dict_in_get)
          show ?thesis
          proof (cases oq)
            case (CalledProcessError err)
            with assms(1) Regex sp sd Some have "S' = S"
              by (simp add: check_project_def Let_def)
            with goal Some CalledProcessError show ?thesis by simp
          next
            case (Ok R)
            show ?thesis
            proof (cases "remote_mode_url_eq E R")
              case True
              with assms(1) Regex sp sd \<open>dict_get expected p = Some q\<close> \<open>q = Ok E\<close> Some Ok isin
              have "check_project a e spec_doc p S =
                  emit [Log DEBUG [p] ProjectPath] (post_checks a e p S)"
                by (auto simp: check_project_def the_expected_def Let_def query_eq_def)
              then have "fst (snd (check_project a e spec_doc p S)) = S" by simp
              with assms(1) have "S' = S" by simp
              with goal Some Ok True show ?thesis
                by (simp add: remote_mode_url_eq_settled)
            next
              case False
              with assms(1) Regex sp sd \<open>dict_get expected p = Some q\<close> \<open>q = Ok E\<close> Some Ok isin obsin
              obtain evs' where "and_then (sync_remotes a e p E R S) (post_checks a e p) =
                  (evs', S', None)"
                by (cases "and_then (sync_remotes a e p E R S) (post_checks a e p)")
                  (auto simp: check_project_def the_expected_def Let_def query_eq_def)
              from synced_settled[OF this] goal show ?thesis by auto
            qed
          qed
        qed
      qed
    qed
  qed
qed


lemma sync_remotes_other:
  "p' \<noteq> p \<Longrightarrow> dict_get (fst (snd (sync_remotes a e p E R0 S))) p' = dict_get S p'"
  by (rule sync_remotes_result[of a e p E R0 S]) (simp add: dict_get_set)

lemma project_other:
  assumes "p' \<noteq> p"
  shows "dict_get (fst (snd (check_project a e spec_doc p S))) p' = dict_get S p'"
proof -
  have synced: "dict_get (fst (snd (and_then (sync_remotes a e p E R0 S0) (post_checks a e p)))) p' =
      dict_get S0 p'" for E R0 S0
    by (simp add: and_then_post_checks_state sync_remotes_other[OF assms])
  show ?thesis
    using assms synced
    by (auto simp: check_project_def Let_def dict_get_set
        simp del: clone_loop.simps
        split: pattern.splits option.splits query.splits prod.splits)
qed

lemma project_frame:
  assumes "p \<noteq> p'" and "check_project a e spec_doc p S = (evs, S', x)"
    and "project_settled a spec_doc p' S"
  shows "project_settled a spec_doc p' S'"
proof -
  from project_other[of p' p a e spec_doc S] assms(1,2) have "dict_get S' p' = dict_get S p'"
    by simp
  with assms(3) show ?thesis
    by (auto simp: project_settled_def split: pattern.splits option.splits query.splits)
qed

lemma project_settled_outside:
  "dict_get expected p = None \<Longrightarrow> project_settled a (Some expected) p S"
  by (simp add: project_settled_def split: pattern.splits)

text \<open>
  Claim C4. If the loop over the projects of a first run finishes and every corrective
  command it ran succeeded, then a second run of the loop on the observed topology the first
  one left, with the same expected topology, the same arguments and any answers of the
  environment, runs no clone, no add-remote and no set-url, and leaves the observed topology
  as it is.
\<close>

theorem second_run_no_corrective_actions:
  assumes "check_projects a e1 spec_doc observed = (evs1, observed1, None)"
    and "list_all (succeeded e1) (corrective evs1)"
  shows "corrective (fst (check_projects a e2 spec_doc observed1)) = []
       \<and> fst (snd (check_projects a e2 spec_doc observed1)) = observed1"
proof -
  have settled: "project_settled a spec_doc p observed1" for p
  proof (cases spec_doc)
    case None
    then show ?thesis by (simp add: project_settled_def split: pattern.splits)
  next
    case (Some expected)
    let ?ks = "sorted_union expected observed"
    have run1: "for_each (check_project a e1 spec_doc) ?ks observed = (evs1, observed1, None)"
      using assms(1) Some by (simp add: check_projects_def the_expected_def)
    have all: "\<forall>k \<in> set ?ks. project_settled a spec_doc k observed1"
      by (rule for_each_establishes[where ok = "\<lambda>evs. list_all (succeeded e1) (corrective evs)"
            and body = "check_project a e1 spec_doc", OF _ _ _ distinct_sorted_union run1 assms(2)])
         (auto intro: project_est project_frame)
    show ?thesis
    proof (cases "p \<in> set (dict_keys expected)")
      case True
      with all show ?thesis by simp
    next
      case False
      then show ?thesis
        using Some by (simp add: project_settled_outside dict_get_None_keys)
    qed
  qed
  show ?thesis
    unfolding check_projects_def
    by (rule for_each_noop) (simp add: project_noop settled)
qed

theorem second_run_no_corrective_actions_witness:
  "check_projects example_args (example_env [] [] (\<lambda>c. succeed))
      (Some [(''p'', Ok [(''origin'', [(''fetch'', ''u''), (''push'', ''v'')])])]) [] =
     ([Log DEBUG [''p''] ProjectPath, Log DEBUG [''p''] ProjectSyncNeeded, Log INFO [''p''] Cloning,
       Run (GitClone ''origin'' ''u'' ''p''), Log INFO [''p'', ''origin''] (CloneComplete ''u'' []),
       Log DEBUG [''p''] CloneExists, Log DEBUG [''p'', ''origin''] RemoteSyncNeeded,
       Log DEBUG [''p'', ''origin''] RemoteExists,
       Log DEBUG [''p'', ''origin'', ''push''] ModeSyncNeeded,
       Log INFO [''p'', ''origin'', ''push''] (Changing (Some ''u'') ''v''),
       Run (GitRemoteSetUrl ''p'' True ''origin'' ''v''),
       Log DEBUG [''p''] CheckingBranches, Run (GitShowRef ''p''),
       Log INFO [''p''] (LocalBranches []), Log DEBUG [''p''] CheckingStash,
       Run (GitStashList ''p''), Log DEBUG [''p''] CheckingUntracked, Run (GitLsFiles ''p'')],
      [(''p'', Ok [(''origin'', [(''fetch'', ''u''), (''push'', ''v'')])])], None)
   \<and> corrective (fst (check_projects example_args (example_env [] [] (\<lambda>c. fail))
        (Some [(''p'', Ok [(''origin'', [(''fetch'', ''u''), (''push'', ''v'')])])])
        [(''p'', Ok [(''origin'', [(''fetch'', ''u''), (''push'', ''v'')])])])) = []"
proof -
  have run1: "check_projects example_args (example_env [] [] (\<lambda>c. succeed))
      (Some [(''p'', Ok [(''origin'', [(''fetch'', ''u''), (''push'', ''v'')])])]) [] =
     ([Log DEBUG [''p''] ProjectPath, Log DEBUG [''p''] ProjectSyncNeeded, Log INFO [''p''] Cloning,
       Run (GitClone ''origin'' ''u'' ''p''), Log INFO [''p'', ''origin''] (CloneComplete ''u'' []),
       Log DEBUG [''p''] CloneExists, Log DEBUG [''p'', ''origin''] RemoteSyncNeeded,
       Log DEBUG [''p'', ''origin''] RemoteExists,
       Log DEBUG [''p'', ''origin'', ''push''] ModeSyncNeeded,
       Log INFO [''p'', ''origin'', ''push''] (Changing (Some ''u'') ''v''),
       Run (GitRemoteSetUrl ''p'' True ''origin'' ''v''),
       Log DEBUG [''p''] CheckingBranches, Run (GitShowRef ''p''),
       Log INFO [''p''] (LocalBranches []), Log DEBUG [''p''] CheckingStash,
       Run (GitStashList ''p''), Log DEBUG [''p''] CheckingUntracked, Run (GitLsFiles ''p'')],
      [(''p'', Ok [(''origin'', [(''fetch'', ''u''), (''push'', ''v'')])])], None)"
    by code_simp
  have ok: "list_all (succeeded (example_env [] [] (\<lambda>c. succeed)))
      (corrective [Log DEBUG [''p''] ProjectPath, Log DEBUG [''p''] ProjectSyncNeeded,
       Log INFO [''p''] Cloning,
       Run (GitClone ''origin'' ''u'' ''p''), Log INFO [''p'', ''origin''] (CloneComplete ''u'' []),
       Log DEBUG [''p''] CloneExists, Log DEBUG [''p'', ''origin''] RemoteSyncNeeded,
       Log DEBUG [''p'', ''origin''] RemoteExists,
       Log DEBUG [''p'', ''origin'', ''push''] ModeSyncNeeded,
       Log INFO [''p'', ''origin'', ''push''] (Changing (Some ''u'') ''v''),
       Run (GitRemoteSetUrl ''p'' True ''origin'' ''v''),
       Log DEBUG [''p''] CheckingBranches, Run (GitShowRef ''p''),
       Log INFO [''p''] (LocalBranches []), Log DEBUG [''p''] CheckingStash,
       Run (GitStashList ''p''), Log DEBUG [''p''] CheckingUntracked, Run (GitLsFiles ''p'')])"
    by (simp add: example_env_def succeed_def)
  from second_run_no_corrective_actions[OF run1 ok, of "example_env [] [] (\<lambda>c. fail)"] run1
  show ?thesis by blast
qed


end
